theory Spec2Isabelle
  imports Complex_Main
begin

section \<open>The recona-go client: configuration, transport and paginated search\<close>

text \<open>
  A shallow embedding of the Go sources of the recona-go client library:
  \<^item> the root package (\<open>Client\<close>, \<open>ClientOptions\<close>, \<open>NewClient\<close>,
    \<open>NewClientWithOptions\<close>, \<open>SetRateLimit\<close>, \<open>GetRateLimitStatus\<close>),
  \<^item> \<open>internal/http.go\<close> (\<open>MakeAuthenticatedRequest\<close>, \<open>DecodeJSON\<close>),
  \<^item> \<open>services/domain.go\<close> and the host service (\<open>GetDetails\<close>,
    \<open>Search\<close>, \<open>SearchAll\<close>).

  Go functions return a pair \<open>(value, error)\<close>; the model keeps the pair, with
  \<open>None\<close> for a nil pointer or a nil error and \<open>[]\<close> for a nil slice. Go's
  \<open>int\<close> is modelled by \<open>int\<close>: the only arithmetic on it is on offsets
  below 10000 plus the length of a slice, far from the 64-bit range.
\<close>

subsection \<open>Values shared by the packages\<close>

text \<open>
  A \<open>float64\<close> is a finite number, an infinity or NaN. Only its comparison with
  zero is used by the code, so finite values are represented by the real number
  they denote.
\<close>

datatype float64 = Num real | PosInf | NegInf | NaN

text \<open>Go's \<open>x <= 0\<close> on a float64: false for NaN, as every comparison with NaN is.\<close>

fun le_zero :: "float64 \<Rightarrow> bool" where
  "le_zero (Num r) = (r \<le> 0)"
| "le_zero PosInf = False"
| "le_zero NegInf = True"
| "le_zero NaN = False"

text \<open>Go's \<open>x > 0\<close> on a float64.\<close>

fun gt_zero :: "float64 \<Rightarrow> bool" where
  "gt_zero (Num r) = (0 < r)"
| "gt_zero PosInf = True"
| "gt_zero NegInf = False"
| "gt_zero NaN = False"

text \<open>\<open>time.Duration\<close> is a count of nanoseconds (an int64).\<close>

type_synonym Duration = int

definition Second :: Duration where
  "Second = 1000000000"

text \<open>
  Errors. Each constructor stands for one \<open>errors.New\<close> or \<open>fmt.Errorf\<close> of
  the source and keeps the arguments of its format string; an error wrapped with
  \<open>%w\<close> is kept as a sub-term. The messages of the services differ by the
  resource's word only (\<open>domain\<close>, \<open>host\<close>), which their constructors take
  first. \<open>External\<close> is an error value made outside the repository (net/http,
  encoding/json, the rate limiter, the context).
\<close>

datatype error =
    External string
  | TokenRequired
      \<comment> \<open>\<open>errors.New("token is required")\<close>\<close>
  | RequestsPerSecNotPositive float64
      \<comment> \<open>\<open>"requests per second must be positive, got: %f"\<close>\<close>
  | BurstSizeNotPositive int
      \<comment> \<open>\<open>"burst size must be positive, got: %d"\<close>\<close>
  | RateLimitWaitCancelled error
      \<comment> \<open>\<open>"rate limit wait cancelled: %w"\<close>\<close>
  | ClientEmpty
      \<comment> \<open>\<open>"request failed, http client is empty"\<close>\<close>
  | MarshalFailed error
      \<comment> \<open>\<open>"failed to marshal request body: %w"\<close>\<close>
  | CreateRequestFailed error
      \<comment> \<open>\<open>"failed to create request: %w"\<close>\<close>
  | RequestFailed error
      \<comment> \<open>\<open>"request failed: %w"\<close>\<close>
  | APIErrorUnreadBody int
      \<comment> \<open>\<open>"API error %d: failed to read response body"\<close>\<close>
  | APIError int string
      \<comment> \<open>\<open>"API error %d: %s"\<close>\<close>
  | GetDetailsFailed string string error
      \<comment> \<open>\<open>"failed to get domain details for ID %s: %w"\<close>\<close>
  | DecodeDetailsFailed string error
      \<comment> \<open>\<open>"failed to decode domain details response: %w"\<close>\<close>
  | SearchFailed string error
      \<comment> \<open>\<open>"failed to search domain records: %w"\<close>\<close>
  | DecodeSearchFailed string error
      \<comment> \<open>\<open>"failed to decode domain search response: %w"\<close>\<close>
  | SearchAllFailed string int error
      \<comment> \<open>\<open>"failed to search domain records at offset %d: %w"\<close>\<close>

subsection \<open>The client and its options (root package)\<close>

definition BaseURL :: string where
  "BaseURL = ''https://api.recona.io''"

definition DefaultRateLimit :: int where
  "DefaultRateLimit = 10"

definition DefaultBurst :: int where
  "DefaultBurst = 2"

text \<open>
  \<open>rate.Limiter\<close> of golang.org/x/time/rate, as far as the client configures and
  reads it: \<open>NewLimiter\<close>, \<open>SetLimit\<close>, \<open>SetBurst\<close>, \<open>Limit\<close>, \<open>Burst\<close>.
  The token count and the clock are not part of the model.
\<close>

record Limiter =
  limit :: float64
  burst :: int

definition NewLimiter :: "float64 \<Rightarrow> int \<Rightarrow> Limiter" where
  "NewLimiter r b = \<lparr>limit = r, burst = b\<rparr>"

definition SetLimit :: "float64 \<Rightarrow> Limiter \<Rightarrow> Limiter" where
  "SetLimit r l = l\<lparr>limit := r\<rparr>"

definition SetBurst :: "int \<Rightarrow> Limiter \<Rightarrow> Limiter" where
  "SetBurst b l = l\<lparr>burst := b\<rparr>"

text \<open>The fields of \<open>http.Transport\<close> and \<open>http.Client\<close> that the constructor sets.\<close>

record Transport =
  MaxIdleConns :: int
  MaxIdleConnsPerHost :: int
  IdleConnTimeout :: Duration
  DisableCompression :: bool

record http_Client =
  client_Timeout :: Duration
  client_Transport :: Transport

text \<open>
  The \<open>Client\<close> struct. Its four service fields hold nothing but a pointer back to
  the client and are left out.
\<close>

record Client =
  baseURL :: string
  token :: string
  httpClient :: http_Client
  rateLimiter :: Limiter

record ClientOptions =
  Timeout :: Duration
  RequestsPerSec :: float64
  BurstSize :: int

text \<open>The zero value \<open>ClientOptions{}\<close>.\<close>

definition ClientOptions_zero :: ClientOptions where
  "ClientOptions_zero = \<lparr>Timeout = 0, RequestsPerSec = Num 0, BurstSize = 0\<rparr>"

definition NewClientWithOptions :: "string \<Rightarrow> ClientOptions \<Rightarrow> Client option \<times> error option" where
  "NewClientWithOptions tok opts0 =
     (let opts1 = (if Timeout opts0 \<le> 0 then opts0\<lparr>Timeout := 60 * Second\<rparr> else opts0);
          opts2 = (if le_zero (RequestsPerSec opts1)
                   then opts1\<lparr>RequestsPerSec := Num (of_int DefaultRateLimit)\<rparr> else opts1);
          opts = (if BurstSize opts2 \<le> 0 then opts2\<lparr>BurstSize := DefaultBurst\<rparr> else opts2)
      in if tok = '''' then (None, Some TokenRequired)
         else
           let hc = \<lparr>client_Timeout = Timeout opts,
                     client_Transport = \<lparr>MaxIdleConns = 100, MaxIdleConnsPerHost = 10,
                        IdleConnTimeout = 90 * Second, DisableCompression = False\<rparr>\<rparr>;
               rl = NewLimiter (RequestsPerSec opts) (BurstSize opts);
               client = \<lparr>baseURL = BaseURL, token = tok, httpClient = hc, rateLimiter = rl\<rparr>
           in (Some client, None))"

definition NewClient :: "string \<Rightarrow> Client option \<times> error option" where
  "NewClient tok = NewClientWithOptions tok ClientOptions_zero"

text \<open>
  \<open>SetRateLimit\<close> has a pointer receiver and returns an error; the model returns
  the error together with the client after the call.
\<close>

definition SetRateLimit :: "float64 \<Rightarrow> int \<Rightarrow> Client \<Rightarrow> error option \<times> Client" where
  "SetRateLimit requestsPerSec burstSize c =
     (if le_zero requestsPerSec then (Some (RequestsPerSecNotPositive requestsPerSec), c)
      else if burstSize \<le> 0 then (Some (BurstSizeNotPositive burstSize), c)
      else
        let c1 = c\<lparr>rateLimiter := SetLimit requestsPerSec (rateLimiter c)\<rparr>;
            c2 = c1\<lparr>rateLimiter := SetBurst burstSize (rateLimiter c1)\<rparr>
        in (None, c2))"

definition GetRateLimitStatus :: "Client \<Rightarrow> float64 \<times> int" where
  "GetRateLimitStatus c = (limit (rateLimiter c), burst (rateLimiter c))"

subsection \<open>Authenticated transport (internal/http.go)\<close>

definition authorizationHeaderName :: string where
  "authorizationHeaderName = ''Authorization''"

definition authorizationType :: string where
  "authorizationType = ''Bearer ''"

definition contentTypeHeaderName :: string where
  "contentTypeHeaderName = ''Content-Type''"

definition acceptHeaderName :: string where
  "acceptHeaderName = ''Accept''"

definition defaultContentType :: string where
  "defaultContentType = ''application/json''"

text \<open>
  \<open>http.Header\<close> is a \<open>map[string][]string\<close>; \<open>Set\<close> replaces the values of a
  key by the single given value. (\<open>Set\<close> canonicalises the key first; the three
  keys the code uses are already in canonical form.)
\<close>

type_synonym Header = "string \<rightharpoonup> string list"

definition Header_Set :: "string \<Rightarrow> string \<Rightarrow> Header \<Rightarrow> Header" where
  "Header_Set k v h = h(k \<mapsto> [v])"

text \<open>
  A response body is a stream: \<open>content\<close> is what reading it to the end yields,
  \<open>read_error\<close> the error the reading ends with, if any, and \<open>closed\<close> whether
  \<open>Close\<close> has been called on it.
\<close>

record ReadCloser =
  content :: string
  read_error :: "error option"
  closed :: bool

text \<open>\<open>io.ReadAll\<close>: the bytes read and the error that stopped the reading.\<close>

definition ReadAll :: "ReadCloser \<Rightarrow> string \<times> error option" where
  "ReadAll r = (content r, read_error r)"

record 'c Request =
  Ctx :: 'c
  Method :: string
  URL :: string
  Header :: Header
  ReqBody :: "string option"

record Response =
  StatusCode :: int
  Body :: ReadCloser

text \<open>
  \<open>http.NewRequestWithContext\<close> rejects some contexts, methods and URLs; what it
  rejects is the library's business and enters as the parameter \<open>invalid\<close>. It
  returns either an error or a request, whose header is empty.
\<close>

definition NewRequestWithContext ::
  "('c \<Rightarrow> string \<Rightarrow> string \<Rightarrow> error option) \<Rightarrow> 'c \<Rightarrow> string \<Rightarrow> string \<Rightarrow> string option
     \<Rightarrow> error + 'c Request" where
  "NewRequestWithContext invalid ctx method url body =
     (case invalid ctx method url of
        Some err \<Rightarrow> Inl err
      | None \<Rightarrow> Inr \<lparr>Ctx = ctx, Method = method, URL = url, Header = Map.empty, ReqBody = body\<rparr>)"

text \<open>
  \<open>MakeAuthenticatedRequest\<close>. The parameters that stand for library code:
  \<open>Marshal\<close> is \<open>json.Marshal\<close> on the body's type, \<open>invalid\<close> the validation of
  \<open>http.NewRequestWithContext\<close>. The \<open>*http.Client\<close> is given by what its
  \<open>Do\<close> method does on the state \<open>'w\<close> of the network (\<open>None\<close> is the nil
  client). The library calls return either an error or a value, as their
  contracts say.
\<close>

definition MakeAuthenticatedRequest ::
  "('b \<Rightarrow> error + string) \<Rightarrow> ('c \<Rightarrow> string \<Rightarrow> string \<Rightarrow> error option)
     \<Rightarrow> 'c \<Rightarrow> ('c Request \<Rightarrow> 'w \<Rightarrow> (error + Response) \<times> 'w) option
     \<Rightarrow> string \<Rightarrow> string \<Rightarrow> string \<Rightarrow> 'b option
     \<Rightarrow> 'w \<Rightarrow> (Response option \<times> error option) \<times> 'w" where
  "MakeAuthenticatedRequest Marshal invalid ctx client method url tok body w =
     (case client of
        None \<Rightarrow> ((None, Some ClientEmpty), w)
      | Some Do \<Rightarrow>
          (case (case body of
                   None \<Rightarrow> Inr None
                 | Some b \<Rightarrow>
                     (case Marshal b of
                        Inl err \<Rightarrow> Inl (MarshalFailed err)
                      | Inr jsonData \<Rightarrow> Inr (Some jsonData))) of
             Inl err \<Rightarrow> ((None, Some err), w)
           | Inr reqBody \<Rightarrow>
               (case NewRequestWithContext invalid ctx method url reqBody of
                  Inl err \<Rightarrow> ((None, Some (CreateRequestFailed err)), w)
                | Inr req0 \<Rightarrow>
                    let req1 = req0\<lparr>Header := Header_Set authorizationHeaderName
                                                    (authorizationType @ tok) (Header req0)\<rparr>;
                        req2 = req1\<lparr>Header := Header_Set contentTypeHeaderName
                                                    defaultContentType (Header req1)\<rparr>;
                        req = req2\<lparr>Header := Header_Set acceptHeaderName
                                                    defaultContentType (Header req2)\<rparr>
                    in (case Do req w of
                          (Inl err, w') \<Rightarrow> ((None, Some (RequestFailed err)), w')
                        | (Inr resp, w') \<Rightarrow>
                            if StatusCode resp \<ge> 400 then
                              (case ReadAll (Body resp) of
                                 (bodyBytes, Some err) \<Rightarrow>
                                   ((None, Some (APIErrorUnreadBody (StatusCode resp))), w')
                               | (bodyBytes, None) \<Rightarrow>
                                   ((None, Some (APIError (StatusCode resp) bodyBytes)), w'))
                            else ((Some resp, None), w')))))"

text \<open>
  \<open>DecodeJSON\<close> hands the reader and the target to \<open>json.NewDecoder(r).Decode(v)\<close>.
  The decoder is library code and enters as the parameter \<open>Decode\<close>: from the stream
  and the pointer the target holds before, to the pointer it holds after and the
  error.
\<close>

definition DecodeJSON ::
  "(ReadCloser \<Rightarrow> 'a option \<Rightarrow> 'a option \<times> error option) \<Rightarrow> ReadCloser \<Rightarrow> 'a option
     \<Rightarrow> 'a option \<times> error option" where
  "DecodeJSON Decode r v = Decode r v"

subsection \<open>Request and response shapes (models)\<close>

record Pagination =
  Limit :: int
  Offset :: int

record Search =
  Query :: string
  Filters :: string

text \<open>\<open>SearchRequest\<close> embeds \<open>Search\<close> and \<open>Pagination\<close>.\<close>

record SearchRequest =
  Search :: Search
  Pagination :: Pagination

record TotalItems =
  Value :: int
  Relation :: string

record PaginationResponse =
  TotalItems :: TotalItems
  ResponsePagination :: Pagination

text \<open>
  \<open>DomainsResponse\<close> and \<open>HostsResponse\<close>; \<open>'d\<close> and \<open>'h\<close> are the types of
  the entries of the slices (\<open>*Domain\<close>, \<open>*Host\<close>).
\<close>

record 'd DomainsResponse =
  DomainsPagination :: PaginationResponse
  Domains :: "'d list"

record 'h HostsResponse =
  HostsPagination :: PaginationResponse
  Hosts :: "'h list"

subsection \<open>The resource services (services/domain.go and the host service)\<close>

text \<open>
  A Go call either returns or panics; the only panic of the services is the
  dereference of a nil pointer.
\<close>

datatype 'a outcome = Return 'a | Panic

text \<open>
  The services hold an \<open>internal.Client\<close>, an interface with the one method
  \<open>MakeRequest(ctx, method, endpoint, body)\<close>; it is the parameter \<open>MakeRequest\<close>
  below, acting on the state \<open>'w\<close> of whatever is behind it. The bodies the
  services pass are nil or a \<open>SearchRequest\<close>.

  The methods close the body of the response when they return; the response is
  not returned, so the model has nothing to show for it.

  The methods of \<open>DomainService\<close> and \<open>HostService\<close> are the same text up to the
  endpoint, the resource's word in the error messages and the field of the
  response that holds the entries. \<open>service_GetDetails\<close>, \<open>service_Search\<close> and
  \<open>service_SearchAll\<close> are that text, with these three as parameters.
\<close>

type_synonym ('c, 'w) MakeRequest =
  "'c \<Rightarrow> string \<Rightarrow> string \<Rightarrow> SearchRequest option \<Rightarrow> 'w \<Rightarrow> (Response option \<times> error option) \<times> 'w"

definition service_GetDetails ::
  "string \<Rightarrow> string \<Rightarrow> ('c, 'w) MakeRequest \<Rightarrow> (ReadCloser \<Rightarrow> 'a option \<Rightarrow> 'a option \<times> error option)
     \<Rightarrow> 'c \<Rightarrow> string \<Rightarrow> 'w \<Rightarrow> ('a option \<times> error option) outcome \<times> 'w" where
  "service_GetDetails resource prefix MakeRequest Decode ctx ident w =
     (case MakeRequest ctx ''GET'' (prefix @ ident) None w of
        ((resp, Some err), w') \<Rightarrow> (Return (None, Some (GetDetailsFailed resource ident err)), w')
      | ((None, None), w') \<Rightarrow> (Panic, w')
      | ((Some resp, None), w') \<Rightarrow>
          (case DecodeJSON Decode (Body resp) None of
             (v, Some err) \<Rightarrow> (Return (None, Some (DecodeDetailsFailed resource err)), w')
           | (v, None) \<Rightarrow> (Return (v, None), w')))"

definition DomainService_GetDetails ::
  "('c, 'w) MakeRequest \<Rightarrow> (ReadCloser \<Rightarrow> 'd option \<Rightarrow> 'd option \<times> error option)
     \<Rightarrow> 'c \<Rightarrow> string \<Rightarrow> 'w \<Rightarrow> ('d option \<times> error option) outcome \<times> 'w" where
  "DomainService_GetDetails = service_GetDetails ''domain'' ''/domains/''"

definition HostService_GetDetails ::
  "('c, 'w) MakeRequest \<Rightarrow> (ReadCloser \<Rightarrow> 'h option \<Rightarrow> 'h option \<times> error option)
     \<Rightarrow> 'c \<Rightarrow> string \<Rightarrow> 'w \<Rightarrow> ('h option \<times> error option) outcome \<times> 'w" where
  "HostService_GetDetails = service_GetDetails ''host'' ''/hosts/''"

definition service_Search ::
  "string \<Rightarrow> string \<Rightarrow> ('c, 'w) MakeRequest \<Rightarrow> (ReadCloser \<Rightarrow> 'r option \<Rightarrow> 'r option \<times> error option)
     \<Rightarrow> 'c \<Rightarrow> SearchRequest \<Rightarrow> 'w \<Rightarrow> ('r option \<times> error option) outcome \<times> 'w" where
  "service_Search resource endpoint MakeRequest Decode ctx params w =
     (case MakeRequest ctx ''POST'' endpoint (Some params) w of
        ((resp, Some err), w') \<Rightarrow> (Return (None, Some (SearchFailed resource err)), w')
      | ((None, None), w') \<Rightarrow> (Panic, w')
      | ((Some resp, None), w') \<Rightarrow>
          (case DecodeJSON Decode (Body resp) None of
             (v, Some err) \<Rightarrow> (Return (None, Some (DecodeSearchFailed resource err)), w')
           | (v, None) \<Rightarrow> (Return (v, None), w')))"

definition DomainService_Search ::
  "('c, 'w) MakeRequest \<Rightarrow> (ReadCloser \<Rightarrow> 'd DomainsResponse option \<Rightarrow> 'd DomainsResponse option \<times> error option)
     \<Rightarrow> 'c \<Rightarrow> SearchRequest \<Rightarrow> 'w \<Rightarrow> ('d DomainsResponse option \<times> error option) outcome \<times> 'w" where
  "DomainService_Search = service_Search ''domain'' ''/domains/search''"

definition HostService_Search ::
  "('c, 'w) MakeRequest \<Rightarrow> (ReadCloser \<Rightarrow> 'h HostsResponse option \<Rightarrow> 'h HostsResponse option \<times> error option)
     \<Rightarrow> 'c \<Rightarrow> SearchRequest \<Rightarrow> 'w \<Rightarrow> ('h HostsResponse option \<times> error option) outcome \<times> 'w" where
  "HostService_Search = service_Search ''host'' ''/hosts/search''"

definition pageSize :: int where
  "pageSize = 100"

definition maxResults :: int where
  "maxResults = 10000"

text \<open>
  The loop of \<open>SearchAll\<close>, from the values of \<open>offset\<close>, the accumulator and
  \<open>limit\<close> at the head of an iteration. \<open>search\<close> is the service's \<open>Search\<close>
  method under the caller's context and \<open>entries\<close> the field of the response
  (\<open>resp.Domains\<close>, \<open>resp.Hosts\<close>). Reading that field of a nil response panics.
\<close>

function SearchAll_loop ::
  "(SearchRequest \<Rightarrow> 'w \<Rightarrow> ('r option \<times> error option) outcome \<times> 'w) \<Rightarrow> ('r \<Rightarrow> 'a list) \<Rightarrow> string
     \<Rightarrow> Search \<Rightarrow> int \<Rightarrow> 'a list \<Rightarrow> int \<Rightarrow> 'w \<Rightarrow> ('a list \<times> error option) outcome \<times> 'w" where
  "SearchAll_loop search entries resource baseParams offset allItems limit0 w =
     (if offset < maxResults then
        let remaining = maxResults - offset;
            limit = (if remaining < pageSize then remaining else limit0)
        in (case search \<lparr>Search = baseParams, Pagination = \<lparr>Limit = limit, Offset = offset\<rparr>\<rparr> w of
              (Panic, w') \<Rightarrow> (Panic, w')
            | (Return (resp, Some err), w') \<Rightarrow>
                (Return ([], Some (SearchAllFailed resource offset err)), w')
            | (Return (None, None), w') \<Rightarrow> (Panic, w')
            | (Return (Some r, None), w') \<Rightarrow>
                if length (entries r) = 0 then (Return (allItems, None), w')
                else
                  let allItems' = allItems @ entries r;
                      offset' = offset + int (length (entries r))
                  in if int (length (entries r)) < limit then (Return (allItems', None), w')
                     else SearchAll_loop search entries resource baseParams offset' allItems' limit w')
      else (Return (allItems, None), w))"
  by pat_completeness auto
termination
  by (relation "measure (\<lambda>(search, entries, resource, baseParams, offset, allItems, limit0, w).
                           nat (maxResults - offset))") auto

definition service_SearchAll ::
  "(SearchRequest \<Rightarrow> 'w \<Rightarrow> ('r option \<times> error option) outcome \<times> 'w) \<Rightarrow> ('r \<Rightarrow> 'a list) \<Rightarrow> string
     \<Rightarrow> Search \<Rightarrow> 'w \<Rightarrow> ('a list \<times> error option) outcome \<times> 'w" where
  "service_SearchAll search entries resource baseParams w =
     SearchAll_loop search entries resource baseParams 0 [] pageSize w"

definition DomainService_SearchAll ::
  "('c, 'w) MakeRequest \<Rightarrow> (ReadCloser \<Rightarrow> 'd DomainsResponse option \<Rightarrow> 'd DomainsResponse option \<times> error option)
     \<Rightarrow> 'c \<Rightarrow> Search \<Rightarrow> 'w \<Rightarrow> ('d list \<times> error option) outcome \<times> 'w" where
  "DomainService_SearchAll MakeRequest Decode ctx =
     service_SearchAll (DomainService_Search MakeRequest Decode ctx) Domains ''domain''"

definition HostService_SearchAll ::
  "('c, 'w) MakeRequest \<Rightarrow> (ReadCloser \<Rightarrow> 'h HostsResponse option \<Rightarrow> 'h HostsResponse option \<times> error option)
     \<Rightarrow> 'c \<Rightarrow> Search \<Rightarrow> 'w \<Rightarrow> ('h list \<times> error option) outcome \<times> 'w" where
  "HostService_SearchAll MakeRequest Decode ctx =
     service_SearchAll (HostService_Search MakeRequest Decode ctx) Hosts ''host''"

subsection \<open>Observing the calls a function makes\<close>

text \<open>
  What a caller does to the thing it calls is read off a history: \<open>recording f\<close>
  behaves as \<open>f\<close> and appends each argument, with the result \<open>f\<close> gave, to a
  list kept beside the state of \<open>f\<close>.
\<close>

definition recording :: "('x \<Rightarrow> 'w \<Rightarrow> 'y \<times> 'w) \<Rightarrow> 'x \<Rightarrow> 'w \<times> ('x \<times> 'y) list \<Rightarrow> 'y \<times> ('w \<times> ('x \<times> 'y) list)" where
  "recording f x = (\<lambda>(w, hist). case f x w of (y, w') \<Rightarrow> (y, (w', hist @ [(x, y)])))"

text \<open>What a recorded page call brought: its entries, whether it is a page, its error.\<close>

fun page_entries :: "('r \<Rightarrow> 'a list) \<Rightarrow> ('r option \<times> error option) outcome \<Rightarrow> 'a list" where
  "page_entries entries (Return (Some r, None)) = entries r"
| "page_entries entries _ = []"

fun is_page :: "('r option \<times> error option) outcome \<Rightarrow> bool" where
  "is_page (Return (Some r, None)) = True"
| "is_page _ = False"

fun page_error :: "('r option \<times> error option) outcome \<Rightarrow> error option" where
  "page_error (Return (resp, err)) = err"
| "page_error Panic = None"

text \<open>The running totals of a list of counts, from a first offset.\<close>

fun running_offsets :: "int \<Rightarrow> nat list \<Rightarrow> int list" where
  "running_offsets off [] = []"
| "running_offsets off (n # ns) = off # running_offsets (off + int n) ns"

text \<open>The limit an iteration of the loop of \<open>SearchAll\<close> requests.\<close>

definition next_limit :: "int \<Rightarrow> int \<Rightarrow> int" where
  "next_limit offset limit0 = (if maxResults - offset < pageSize then maxResults - offset else limit0)"

text \<open>
  \<open>replay\<close> reads a history as a run of the loop of \<open>SearchAll\<close>: each entry is
  the request of one iteration with the result it got, and \<open>out\<close> is what the
  loop returns after the last of them.
\<close>

fun replay ::
  "('r \<Rightarrow> 'a list) \<Rightarrow> string \<Rightarrow> Search \<Rightarrow> int \<Rightarrow> 'a list \<Rightarrow> int
     \<Rightarrow> (SearchRequest \<times> ('r option \<times> error option) outcome) list
     \<Rightarrow> ('a list \<times> error option) outcome \<Rightarrow> bool" where
  "replay entries resource q offset allItems limit0 [] out =
     (\<not> offset < maxResults \<and> out = Return (allItems, None))"
| "replay entries resource q offset allItems limit0 ((req, res) # rest) out =
     (offset < maxResults \<and>
      (let limit = (if maxResults - offset < pageSize then maxResults - offset else limit0) in
         req = \<lparr>Search = q, Pagination = \<lparr>Limit = limit, Offset = offset\<rparr>\<rparr> \<and>
         (case res of
            Panic \<Rightarrow> rest = [] \<and> out = Panic
          | Return (resp, Some err) \<Rightarrow>
              rest = [] \<and> out = Return ([], Some (SearchAllFailed resource offset err))
          | Return (None, None) \<Rightarrow> rest = [] \<and> out = Panic
          | Return (Some r, None) \<Rightarrow>
              if entries r = [] then rest = [] \<and> out = Return (allItems, None)
              else if int (length (entries r)) < limit
                then rest = [] \<and> out = Return (allItems @ entries r, None)
              else replay entries resource q (offset + int (length (entries r)))
                     (allItems @ entries r) limit rest out)))"

subsection \<open>Scripted backends\<close>

text \<open>
  A fake backend that answers the calls with a given list of results, one after
  the other, and with \<open>dflt\<close> once the list is used up.
\<close>

fun scripted :: "'y \<Rightarrow> 'x \<Rightarrow> 'y list \<Rightarrow> 'y \<times> 'y list" where
  "scripted dflt x [] = (dflt, [])"
| "scripted dflt x (y # ys) = (y, ys)"

definition page :: "nat list \<Rightarrow> (nat DomainsResponse option \<times> error option) outcome" where
  "page xs = Return (Some \<lparr>DomainsPagination = \<lparr>TotalItems = \<lparr>Value = 300, Relation = ''eq''\<rparr>,
       ResponsePagination = \<lparr>Limit = 100, Offset = 0\<rparr>\<rparr>, Domains = xs\<rparr>, None)"

definition example_query :: Search where
  "example_query = \<lparr>Query = ''ports.port.eq: 9200'', Filters = []\<rparr>"

definition page_request :: "int \<Rightarrow> int \<Rightarrow> SearchRequest" where
  "page_request l off = \<lparr>Search = example_query, Pagination = \<lparr>Limit = l, Offset = off\<rparr>\<rparr>"

text \<open>A backend that answers every request with a page of 100 entries.\<close>

definition full_backend ::
  "SearchRequest \<Rightarrow> unit \<Rightarrow> (nat DomainsResponse option \<times> error option) outcome \<times> unit" where
  "full_backend req w = (page (map (\<lambda>i. nat (Offset (Pagination req)) + i) [0..<100]), w)"

subsection \<open>The client's MakeRequest\<close>

text \<open>
  \<open>Client.MakeRequest\<close> waits for the rate limiter and then calls
  \<open>MakeAuthenticatedRequest\<close> with the client's HTTP client and token.
  \<open>Wait\<close> is \<open>rateLimiter.Wait(ctx)\<close>, which blocks on the clock and returns an
  error when the context ends first; \<open>Do\<close> is the \<open>Do\<close> method of an HTTP client of
  the given configuration.
\<close>

definition Client_MakeRequest ::
  "('c \<Rightarrow> 'w \<Rightarrow> error option \<times> 'w) \<Rightarrow> ('b \<Rightarrow> error + string)
     \<Rightarrow> ('c \<Rightarrow> string \<Rightarrow> string \<Rightarrow> error option)
     \<Rightarrow> (http_Client \<Rightarrow> 'c Request \<Rightarrow> 'w \<Rightarrow> (error + Response) \<times> 'w)
     \<Rightarrow> Client \<Rightarrow> 'c \<Rightarrow> string \<Rightarrow> string \<Rightarrow> 'b option
     \<Rightarrow> 'w \<Rightarrow> (Response option \<times> error option) \<times> 'w" where
  "Client_MakeRequest Wait Marshal invalid Do c ctx method endpoint body w =
     (case Wait ctx w of
        (Some err, w') \<Rightarrow> ((None, Some (RateLimitWaitCancelled err)), w')
      | (None, w') \<Rightarrow>
          let fullURL = baseURL c @ endpoint
          in MakeAuthenticatedRequest Marshal invalid ctx (Some (Do (httpClient c)))
               method fullURL (token c) body w')"

subsection \<open>Stand-ins for the library and the network\<close>

text \<open>
  Concrete values for the parameters, for running the model: a marshaller that
  always succeeds, a request validation that accepts everything, a rate limiter
  that admits at once, a network that answers every request with one given
  response, and a decoder that knows the JSON literal \<open>null\<close> only.
\<close>

definition marshal_ok :: "SearchRequest \<Rightarrow> error + string" where
  "marshal_ok b = Inr ''{}''"

definition accept_all :: "unit \<Rightarrow> string \<Rightarrow> string \<Rightarrow> error option" where
  "accept_all ctx method url = None"

definition admit :: "unit \<Rightarrow> 'w \<Rightarrow> error option \<times> 'w" where
  "admit ctx w = (None, w)"

definition respond :: "Response \<Rightarrow> unit Request \<Rightarrow> 'w \<Rightarrow> (error + Response) \<times> 'w" where
  "respond resp req w = (Inr resp, w)"

definition decode_null :: "ReadCloser \<Rightarrow> nat option \<Rightarrow> nat option \<times> error option" where
  "decode_null r v =
     (if content r = ''null'' \<and> read_error r = None then (None, None)
      else (v, Some (External ''not the null literal'')))"

definition response_of :: "int \<Rightarrow> string \<Rightarrow> error option \<Rightarrow> Response" where
  "response_of status text err =
     \<lparr>StatusCode = status, Body = \<lparr>content = text, read_error = err, closed = False\<rparr>\<rparr>"

text \<open>
  What \<open>MakeAuthenticatedRequest\<close> makes of the result of \<open>client.Do\<close>: the
  last part of its text, named for the proofs.
\<close>

definition classify :: "error + Response \<Rightarrow> Response option \<times> error option" where
  "classify r = (case r of
                     Inl err \<Rightarrow> (None, Some (RequestFailed err))
                   | Inr resp \<Rightarrow>
                       if StatusCode resp \<ge> 400 then
                         (case read_error (Body resp) of
                            Some e \<Rightarrow> (None, Some (APIErrorUnreadBody (StatusCode resp)))
                          | None \<Rightarrow> (None, Some (APIError (StatusCode resp) (content (Body resp)))))
                       else (Some resp, None))"

subsection \<open>Header values on the wire\<close>

text \<open>
  When net/http writes a request it writes each header value trimmed of white
  space at both ends (\<open>textproto.TrimString\<close>). \<open>isASCIISpace\<close> and
  \<open>TrimString\<close> state that rule; the write itself is library code and enters the
  properties as a parameter.
\<close>

definition isASCIISpace :: "char \<Rightarrow> bool" where
  "isASCIISpace b = (b = CHR '' '' \<or> b = CHR 0x09 \<or> b = CHR 0x0A \<or> b = CHR 0x0D)"

definition TrimString :: "string \<Rightarrow> string" where
  "TrimString s = rev (dropWhile isASCIISpace (rev (dropWhile isASCIISpace s)))"

section \<open>Properties\<close>

subsection \<open>The loop of SearchAll and its history\<close>

lemma SearchAll_loop_replay:
  "SearchAll_loop (recording search) entries resource q offset allItems limit0 (w, hist) = (out, (w', hist'))
   \<Longrightarrow> \<exists>tr. hist' = hist @ tr \<and> replay entries resource q offset allItems limit0 tr out \<and>
            (\<forall>(req, res) \<in> set tr. \<exists>w0. res = fst (search req w0))"
proof (induction "recording search" entries resource q offset allItems limit0 "(w, hist)"
    arbitrary: w hist rule: SearchAll_loop.induct)
  case (1 entries resource baseParams offset allItems limit0)
  show ?case
  proof (cases "offset < maxResults")
    case False
    with "1.prems" show ?thesis by simp
  next
    case True
    define limit where "limit = (if maxResults - offset < pageSize then maxResults - offset else limit0)"
    define req where "req = \<lparr>Search = baseParams, Pagination = \<lparr>Limit = limit, Offset = offset\<rparr>\<rparr>"
    obtain res w1 where s: "search req w = (res, w1)" by (cases "search req w")
    then have rs: "recording search req (w, hist) = (res, (w1, hist @ [(req, res)]))"
      by (simp add: recording_def)
    have fst: "res = fst (search req w)" using s by simp
    have rs': "recording search \<lparr>Search = baseParams, Pagination = \<lparr>Limit =
          (if maxResults - offset < pageSize then maxResults - offset else limit0),
          Offset = offset\<rparr>\<rparr> (w, hist) = (res, (w1, hist @ [(req, res)]))"
      using rs by (simp add: req_def limit_def)
    have req_eq: "req = \<lparr>Search = baseParams, Pagination = \<lparr>Limit =
          (if maxResults - offset < pageSize then maxResults - offset else limit0),
          Offset = offset\<rparr>\<rparr>"
      by (simp add: req_def limit_def)
    show ?thesis
    proof (cases "\<exists>r. res = Return (Some r, None) \<and> entries r \<noteq> [] \<and> \<not> int (length (entries r)) < limit")
      case False
      have "hist' = hist @ [(req, res)] \<and>
          replay entries resource baseParams offset allItems limit0 [(req, res)] out"
        using "1.prems" True rs' False req_eq
        apply (subst (asm) SearchAll_loop.simps)
        apply (cases res)
         apply (auto simp: Let_def limit_def split: option.splits if_splits)
        done
      with fst show ?thesis by (intro exI[of _ "[(req, res)]"]) auto
    next
      case rec: True
      then obtain r where r: "res = Return (Some r, None)" "entries r \<noteq> []"
          "\<not> int (length (entries r)) < limit" by blast
      have run': "SearchAll_loop (recording search) entries resource baseParams
                     (offset + int (length (entries r))) (allItems @ entries r) limit
                     (w1, hist @ [(req, res)]) = (out, (w', hist'))" 
        using "1.prems" True rs' r
        apply (subst (asm) SearchAll_loop.simps)
        apply (simp add: Let_def limit_def)
        done
      have "\<exists>tr. hist' = (hist @ [(req, res)]) @ tr \<and>
           replay entries resource baseParams (offset + int (length (entries r)))
             (allItems @ entries r) limit tr out \<and>
           (\<forall>(req, res)\<in>set tr. \<exists>w0. res = fst (search req w0))"
      proof (rule "1.hyps"[OF True refl _ _ r(1) _ refl refl _ refl refl _ run'])
        show "limit = (if maxResults - offset < pageSize then maxResults - offset else limit0)"
          by (simp add: limit_def)
        show "(res, w1, hist @ [(req, res)]) = recording search
           \<lparr>Search = baseParams, Pagination = \<lparr>Limit = limit, Offset = offset\<rparr>\<rparr> (w, hist)"
          using rs by (simp add: req_def)
        show "(Some r, None) = (Some r, None)" by simp
        show "length (entries r) \<noteq> 0" using r(2) by simp
        show "\<not> int (length (entries r)) < limit" by (rule r(3))
      qed
      then obtain tr where tr: "hist' = (hist @ [(req, res)]) @ tr"
          "replay entries resource baseParams (offset + int (length (entries r)))
             (allItems @ entries r) limit tr out"
          "\<forall>(req, res)\<in>set tr. \<exists>w0. res = fst (search req w0)" by blast
      have "replay entries resource baseParams offset allItems limit0 ((req, res) # tr) out"
        using True r tr(2) by (simp add: Let_def limit_def req_def)
      with tr(1,3) fst show ?thesis by (intro exI[of _ "(req, res) # tr"]) auto
    qed
  qed
qed


lemma replay_requests:
  "replay entries resource q offset allItems limit0 tr out \<Longrightarrow>
   (pageSize \<le> maxResults - offset \<longrightarrow> limit0 = pageSize) \<Longrightarrow>
   \<forall>(req, res) \<in> set tr. Search req = q \<and> offset \<le> Offset (Pagination req) \<and>
      Offset (Pagination req) < maxResults \<and>
      Limit (Pagination req) = min pageSize (maxResults - Offset (Pagination req))"
proof (induction tr arbitrary: offset allItems limit0)
  case Nil
  then show ?case by simp
next
  case (Cons a tr)
  obtain req res where a: "a = (req, res)" by (cases a)
  define limit where "limit = (if maxResults - offset < pageSize then maxResults - offset else limit0)"
  from Cons.prems(1) have req: "req = \<lparr>Search = q, Pagination = \<lparr>Limit = limit, Offset = offset\<rparr>\<rparr>"
    and lt: "offset < maxResults"
    by (simp_all add: a Let_def limit_def)
  have lim: "limit = min pageSize (maxResults - offset)"
    using Cons.prems(2) by (auto simp: limit_def min_def)
  have head: "Search req = q \<and> offset \<le> Offset (Pagination req) \<and>
      Offset (Pagination req) < maxResults \<and>
      Limit (Pagination req) = min pageSize (maxResults - Offset (Pagination req))"
    using req lt lim by simp
  show ?case
  proof (cases "tr = []")
    case True
    with head show ?thesis by (simp add: a)
  next
    case False
    with Cons.prems(1) obtain r where r: "res = Return (Some r, None)"
      and rest: "replay entries resource q (offset + int (length (entries r)))
                   (allItems @ entries r) limit tr out"
      by (auto simp: a Let_def limit_def split: outcome.splits option.splits prod.splits if_splits)
    have inv: "pageSize \<le> maxResults - (offset + int (length (entries r))) \<longrightarrow> limit = pageSize"
      using lim by (auto simp: min_def)
    from Cons.IH[OF rest inv]
    have "\<forall>(req, res) \<in> set tr. Search req = q \<and> offset \<le> Offset (Pagination req) \<and>
      Offset (Pagination req) < maxResults \<and>
      Limit (Pagination req) = min pageSize (maxResults - Offset (Pagination req))"
      by fastforce
    with head show ?thesis by (simp add: a)
  qed
qed


lemma replay_head:
  "replay entries resource q offset allItems limit0 ((req, res) # tr) out \<Longrightarrow>
   offset < maxResults \<and>
   req = \<lparr>Search = q, Pagination = \<lparr>Limit = next_limit offset limit0, Offset = offset\<rparr>\<rparr>"
  by (simp add: Let_def next_limit_def)

lemma replay_more:
  "replay entries resource q offset allItems limit0 ((req, res) # tr) out \<Longrightarrow> tr \<noteq> [] \<Longrightarrow>
   \<exists>r. res = Return (Some r, None) \<and> entries r \<noteq> [] \<and>
       next_limit offset limit0 \<le> int (length (entries r)) \<and>
       replay entries resource q (offset + int (length (entries r))) (allItems @ entries r)
         (next_limit offset limit0) tr out"
  by (auto simp: Let_def next_limit_def split: outcome.splits option.splits prod.splits if_splits)

lemma replay_page:
  "replay entries resource q offset allItems limit0 ((req, Return (Some r, None)) # tr) out \<Longrightarrow>
   (if entries r = [] then tr = [] \<and> out = Return (allItems, None)
    else if int (length (entries r)) < next_limit offset limit0
      then tr = [] \<and> out = Return (allItems @ entries r, None)
    else replay entries resource q (offset + int (length (entries r))) (allItems @ entries r)
         (next_limit offset limit0) tr out)"
  by (simp add: Let_def next_limit_def)

lemma replay_error:
  "replay entries resource q offset allItems limit0 ((req, res) # tr) out \<Longrightarrow>
   page_error res = Some err \<Longrightarrow>
   tr = [] \<and> out = Return ([], Some (SearchAllFailed resource offset err))"
  by (cases res) (auto simp: Let_def split: option.splits)

lemma replay_offsets:
  "replay entries resource q offset allItems limit0 tr out \<Longrightarrow>
   map (Offset \<circ> Pagination \<circ> fst) tr =
     running_offsets offset (map (length \<circ> page_entries entries \<circ> snd) tr)"
proof (induction tr arbitrary: offset allItems limit0)
  case Nil
  then show ?case by simp
next
  case (Cons a tr)
  obtain req res where a: "a = (req, res)" by (cases a)
  note h = replay_head[OF Cons.prems[unfolded a]]
  show ?case
  proof (cases "tr = []")
    case True
    with h show ?thesis by (simp add: a)
  next
    case False
    from replay_more[OF Cons.prems[unfolded a] False] obtain r where
      r: "res = Return (Some r, None)" and
      rest: "replay entries resource q (offset + int (length (entries r))) (allItems @ entries r)
         (next_limit offset limit0) tr out" by blast
    from Cons.IH[OF rest] h r show ?thesis by (simp add: a)
  qed
qed

lemma replay_increasing:
  "replay entries resource q offset allItems limit0 tr out \<Longrightarrow>
   sorted_wrt (<) (map (Offset \<circ> Pagination \<circ> fst) tr) \<and>
   (\<forall>x \<in> set (map (Offset \<circ> Pagination \<circ> fst) tr). offset \<le> x)"
proof (induction tr arbitrary: offset allItems limit0)
  case Nil
  then show ?case by simp
next
  case (Cons a tr)
  obtain req res where a: "a = (req, res)" by (cases a)
  note h = replay_head[OF Cons.prems[unfolded a]]
  show ?case
  proof (cases "tr = []")
    case True
    with h show ?thesis by (simp add: a)
  next
    case False
    from replay_more[OF Cons.prems[unfolded a] False] obtain r where
      r: "res = Return (Some r, None)" "entries r \<noteq> []" and
      rest: "replay entries resource q (offset + int (length (entries r))) (allItems @ entries r)
         (next_limit offset limit0) tr out" by blast
    have pos: "offset < offset + int (length (entries r))" using r(2) by simp
    from Cons.IH[OF rest] have ih: "sorted_wrt (<) (map (Offset \<circ> Pagination \<circ> fst) tr)"
      "\<forall>x \<in> set (map (Offset \<circ> Pagination \<circ> fst) tr). offset + int (length (entries r)) \<le> x"
      by blast+
    have "\<forall>x \<in> set (map (Offset \<circ> Pagination \<circ> fst) tr). offset < x"
    proof
      fix x assume "x \<in> set (map (Offset \<circ> Pagination \<circ> fst) tr)"
      with ih(2) have "offset + int (length (entries r)) \<le> x" by blast
      with pos show "offset < x" by linarith
    qed
    with ih(1) h show ?thesis by (auto simp: a o_def intro: less_imp_le)
  qed
qed

lemma replay_concat:
  "replay entries resource q offset allItems limit0 tr out \<Longrightarrow>
   \<forall>(req, res) \<in> set tr. is_page res \<Longrightarrow>
   out = Return (allItems @ concat (map (page_entries entries \<circ> snd) tr), None)"
proof (induction tr arbitrary: offset allItems limit0)
  case Nil
  then show ?case by simp
next
  case (Cons a tr)
  obtain req res where a: "a = (req, res)" by (cases a)
  from Cons.prems(2) a have "is_page res" by simp
  then obtain r where r: "res = Return (Some r, None)"
    by (cases res rule: is_page.cases) auto
  note pg = replay_page[OF Cons.prems(1)[unfolded a r]]
  show ?case
  proof (cases "entries r = [] \<or> int (length (entries r)) < next_limit offset limit0")
    case True
    with pg show ?thesis by (auto simp: a r split: if_splits)
  next
    case False
    with pg have rest: "replay entries resource q (offset + int (length (entries r)))
        (allItems @ entries r) (next_limit offset limit0) tr out" by (simp split: if_splits)
    from Cons.prems(2) have "\<forall>(req, res) \<in> set tr. is_page res" by simp
    from Cons.IH[OF rest this] show ?thesis by (simp add: a r)
  qed
qed

lemma replay_split:
  "replay entries resource q offset allItems limit0 (pre @ (req, res) # post) out \<Longrightarrow>
   \<exists>limit1. replay entries resource q
      (offset + int (length (concat (map (page_entries entries \<circ> snd) pre))))
      (allItems @ concat (map (page_entries entries \<circ> snd) pre)) limit1 ((req, res) # post) out \<and>
     (\<forall>(rq, rs) \<in> set pre. is_page rs \<and> page_entries entries rs \<noteq> [])"
proof (induction pre arbitrary: offset allItems limit0)
  case Nil
  then show ?case by (intro exI[of _ limit0]) (simp del: replay.simps)
next
  case (Cons a pre)
  obtain rq rs where a: "a = (rq, rs)" by (cases a)
  from Cons.prems have p: "replay entries resource q offset allItems limit0
      ((rq, rs) # (pre @ (req, res) # post)) out" by (simp add: a)
  from replay_more[OF p] obtain r where
      r: "rs = Return (Some r, None)" "entries r \<noteq> []" and
      rest: "replay entries resource q (offset + int (length (entries r))) (allItems @ entries r)
         (next_limit offset limit0) (pre @ (req, res) # post) out" by blast
  from Cons.IH[OF rest] obtain limit1 where
    ih: "replay entries resource q
      (offset + int (length (entries r)) + int (length (concat (map (page_entries entries \<circ> snd) pre))))
      ((allItems @ entries r) @ concat (map (page_entries entries \<circ> snd) pre)) limit1
      ((req, res) # post) out"
      "\<forall>(rq, rs) \<in> set pre. is_page rs \<and> page_entries entries rs \<noteq> []" by blast
  have "replay entries resource q
      (offset + int (length (concat (map (page_entries entries \<circ> snd) (a # pre)))))
      (allItems @ concat (map (page_entries entries \<circ> snd) (a # pre))) limit1
      ((req, res) # post) out"
    using ih(1) by (simp add: a r add.assoc del: replay.simps)
  moreover have "\<forall>(rq, rs) \<in> set (a # pre). is_page rs \<and> page_entries entries rs \<noteq> []"
    using ih(2) r by (simp add: a)
  ultimately show ?case by blast
qed


lemma next_limit_min:
  "(pageSize \<le> maxResults - offset \<longrightarrow> limit0 = pageSize) \<Longrightarrow>
   next_limit offset limit0 = min pageSize (maxResults - offset)"
  by (auto simp: next_limit_def min_def)

lemma replay_bounded:
  "replay entries resource q offset allItems limit0 tr out \<Longrightarrow>
   (pageSize \<le> maxResults - offset \<longrightarrow> limit0 = pageSize) \<Longrightarrow>
   int (length allItems) \<le> maxResults \<Longrightarrow> int (length allItems) = offset \<Longrightarrow>
   \<forall>(req, res) \<in> set tr. int (length (page_entries entries res)) \<le> Limit (Pagination req) \<Longrightarrow>
   out = Return (items, err) \<Longrightarrow> int (length items) \<le> maxResults"
proof (induction tr arbitrary: offset allItems limit0)
  case Nil
  then show ?case by simp
next
  case (Cons a tr)
  obtain req res where a: "a = (req, res)" by (cases a)
  note h = replay_head[OF Cons.prems(1)[unfolded a]]
  note lim = next_limit_min[OF Cons.prems(2)]
  have mr: "0 \<le> maxResults" by (simp add: maxResults_def)
  show ?case
  proof (cases res)
    case Panic
    with Cons.prems(1,6) show ?thesis by (simp add: a Let_def)
  next
    case (Return p)
    obtain resp e where p: "p = (resp, e)" by (cases p)
    show ?thesis
    proof (cases e)
      case (Some err)
      with replay_error[OF Cons.prems(1)[unfolded a], of err] Return p Cons.prems(6) mr
      show ?thesis by simp
    next
      case None
      show ?thesis
      proof (cases resp)
        case None
        with Cons.prems(1,6) Return p \<open>e = None\<close> show ?thesis by (simp add: a Let_def)
      next
        case (Some r)
        have res: "res = Return (Some r, None)" using Return p Some \<open>e = None\<close> by simp
        note pg = replay_page[OF Cons.prems(1)[unfolded a res]]
        from Cons.prems(5) h have len: "int (length (entries r)) \<le> next_limit offset limit0"
          by (simp add: a res)
        with lim have len': "offset + int (length (entries r)) \<le> maxResults" by simp
        show ?thesis
        proof (cases "entries r = [] \<or> int (length (entries r)) < next_limit offset limit0")
          case True
          with pg Cons.prems(3,4,6) len' show ?thesis by (auto split: if_splits)
        next
          case False
          with pg have rest: "replay entries resource q (offset + int (length (entries r)))
            (allItems @ entries r) (next_limit offset limit0) tr out" by (simp split: if_splits)
          have inv: "pageSize \<le> maxResults - (offset + int (length (entries r))) \<longrightarrow>
                     next_limit offset limit0 = pageSize"
            using lim by (auto simp: min_def)
          from Cons.prems(5) have b: "\<forall>(req, res) \<in> set tr.
              int (length (page_entries entries res)) \<le> Limit (Pagination req)" by simp
          show ?thesis
            by (rule Cons.IH[OF rest inv _ _ b Cons.prems(6)]) (use Cons.prems(4) len' in simp_all)
        qed
      qed
    qed
  qed
qed

lemma replay_full:
  "replay entries resource q offset allItems limit0 tr out \<Longrightarrow>
   limit0 = pageSize \<Longrightarrow> pageSize dvd offset \<Longrightarrow> offset \<le> maxResults \<Longrightarrow>
   int (length allItems) = offset \<Longrightarrow>
   \<forall>(req, res) \<in> set tr. is_page res \<and> int (length (page_entries entries res)) = pageSize \<Longrightarrow>
   (\<exists>items. out = Return (items, None) \<and> int (length items) = maxResults) \<and>
   (\<forall>(req, res) \<in> set tr. Limit (Pagination req) = pageSize)"
proof (induction tr arbitrary: offset allItems)
  case Nil
  then show ?case by simp
next
  case (Cons a tr)
  obtain req res where a: "a = (req, res)" by (cases a)
  note h = replay_head[OF Cons.prems(1)[unfolded a]]
  from Cons.prems(6) a have "is_page res" by simp
  then obtain r where r: "res = Return (Some r, None)"
    by (cases res rule: is_page.cases) auto
  from Cons.prems(6) have len: "int (length (entries r)) = pageSize" by (simp add: a r)
  from h Cons.prems(3) have "pageSize \<le> maxResults - offset"
    by (auto simp: pageSize_def maxResults_def)
  with Cons.prems(2) have lim: "next_limit offset limit0 = pageSize"
    by (simp add: next_limit_def)
  from len have ne: "entries r \<noteq> []" by (auto simp: pageSize_def)
  from replay_page[OF Cons.prems(1)[unfolded a r]] ne len lim
  have rest: "replay entries resource q (offset + pageSize) (allItems @ entries r) limit0 tr out"
    using Cons.prems(2) by simp
  have "(\<exists>items. out = Return (items, None) \<and> int (length items) = maxResults) \<and>
        (\<forall>(req, res) \<in> set tr. Limit (Pagination req) = pageSize)"
  proof (rule Cons.IH[OF rest Cons.prems(2)])
    show "pageSize dvd offset + pageSize" using Cons.prems(3) by simp
    show "offset + pageSize \<le> maxResults" using \<open>pageSize \<le> maxResults - offset\<close> by simp
    show "int (length (allItems @ entries r)) = offset + pageSize"
      using Cons.prems(5) len by simp
    show "\<forall>(req, res) \<in> set tr. is_page res \<and> int (length (page_entries entries res)) = pageSize"
      using Cons.prems(6) by simp
  qed
  with h lim show ?case by (simp add: a)
qed

lemma service_SearchAll_replay:
  assumes "service_SearchAll (recording search) entries resource q (w, []) = (out, (w', hist))"
  shows "replay entries resource q 0 [] pageSize hist out"
    and "\<forall>(req, res) \<in> set hist. \<exists>w0. res = fst (search req w0)"
  using SearchAll_loop_replay[OF assms[unfolded service_SearchAll_def]] by auto

lemma replay_nonempty:
  "replay entries resource q 0 allItems limit0 tr out \<Longrightarrow> tr \<noteq> []"
  by (cases tr) (simp_all add: maxResults_def)

text \<open>
  Recording changes nothing: the recorded run returns what the plain run returns
  and leaves the backend in the same state.
\<close>

lemma SearchAll_loop_recording:
  "\<exists>tr. SearchAll_loop (recording search) entries resource q offset allItems limit0 (w, hist) =
     (fst (SearchAll_loop search entries resource q offset allItems limit0 w),
      (snd (SearchAll_loop search entries resource q offset allItems limit0 w), hist @ tr))"
proof (induction search entries resource q offset allItems limit0 w arbitrary: hist
    rule: SearchAll_loop.induct)
  case (1 search entries resource baseParams offset allItems limit0 w)
  show ?case
  proof (cases "offset < maxResults")
    case False
    then show ?thesis
      by (subst SearchAll_loop.simps, subst (2 3) SearchAll_loop.simps) simp
  next
    case True
    define limit where "limit = (if maxResults - offset < pageSize then maxResults - offset else limit0)"
    define req where "req = \<lparr>Search = baseParams, Pagination = \<lparr>Limit = limit, Offset = offset\<rparr>\<rparr>"
    obtain res w1 where s: "search req w = (res, w1)" by (cases "search req w")
    then have rs: "recording search req (w, hist) = (res, (w1, hist @ [(req, res)]))"
      by (simp add: recording_def)
    show ?thesis
    proof (cases "\<exists>r. res = Return (Some r, None) \<and> entries r \<noteq> [] \<and> \<not> int (length (entries r)) < limit")
      case False
      have "SearchAll_loop (recording search) entries resource baseParams offset allItems limit0 (w, hist) =
        (fst (SearchAll_loop search entries resource baseParams offset allItems limit0 w),
         (snd (SearchAll_loop search entries resource baseParams offset allItems limit0 w),
          hist @ [(req, res)]))"
        using True False s rs
        apply (subst SearchAll_loop.simps, subst (2 3) SearchAll_loop.simps)
        apply (cases res)
         apply (auto simp: Let_def limit_def req_def split: option.splits)
        done
      then show ?thesis ..
    next
      case rec: True
      then obtain r where r: "res = Return (Some r, None)" "entries r \<noteq> []"
          "\<not> int (length (entries r)) < limit" by blast
      have "\<exists>tr. SearchAll_loop (recording search) entries resource baseParams
                     (offset + int (length (entries r))) (allItems @ entries r) limit
                     (w1, hist @ [(req, res)]) =
           (fst (SearchAll_loop search entries resource baseParams
                     (offset + int (length (entries r))) (allItems @ entries r) limit w1),
            (snd (SearchAll_loop search entries resource baseParams
                     (offset + int (length (entries r))) (allItems @ entries r) limit w1),
             (hist @ [(req, res)]) @ tr))"
      proof (rule "1.IH"[OF True refl _ _ r(1) _ refl refl _ refl refl])
        show "limit = (if maxResults - offset < pageSize then maxResults - offset else limit0)"
          by (simp add: limit_def)
        show "(res, w1) = search \<lparr>Search = baseParams, Pagination = \<lparr>Limit = limit, Offset = offset\<rparr>\<rparr> w"
          using s by (simp add: req_def)
        show "(Some r, None) = (Some r, None)" by simp
        show "length (entries r) \<noteq> 0" using r(2) by simp
        show "\<not> int (length (entries r)) < limit" by (rule r(3))
      qed
      then obtain tr where tr: "SearchAll_loop (recording search) entries resource baseParams
                     (offset + int (length (entries r))) (allItems @ entries r) limit
                     (w1, hist @ [(req, res)]) =
           (fst (SearchAll_loop search entries resource baseParams
                     (offset + int (length (entries r))) (allItems @ entries r) limit w1),
            (snd (SearchAll_loop search entries resource baseParams
                     (offset + int (length (entries r))) (allItems @ entries r) limit w1),
             hist @ (req, res) # tr))" by auto
      have "SearchAll_loop (recording search) entries resource baseParams offset allItems limit0 (w, hist) =
        (fst (SearchAll_loop search entries resource baseParams offset allItems limit0 w),
         (snd (SearchAll_loop search entries resource baseParams offset allItems limit0 w),
          hist @ (req, res) # tr))"
        using True r s rs tr
        apply (subst SearchAll_loop.simps, subst (2 3) SearchAll_loop.simps)
        apply (simp add: Let_def limit_def req_def)
        done
      then show ?thesis ..
    qed
  qed
qed

lemma service_SearchAll_observed:
  assumes "service_SearchAll (recording search) entries resource q (w, []) = (out, (w', hist))"
  shows "service_SearchAll search entries resource q w = (out, w')"
proof -
  from SearchAll_loop_recording[of search entries resource q 0 "[]" pageSize w "[]"]
  obtain tr where "SearchAll_loop (recording search) entries resource q 0 [] pageSize (w, []) =
     (fst (SearchAll_loop search entries resource q 0 [] pageSize w),
      (snd (SearchAll_loop search entries resource q 0 [] pageSize w), [] @ tr))" ..
  with assms show ?thesis by (simp add: service_SearchAll_def prod_eq_iff)
qed

text \<open>
  A \<open>Search\<close> that returns the nil response with the nil error (the server
  answered with the JSON literal \<open>null\<close>) makes \<open>SearchAll\<close> panic on
  \<open>resp.Domains\<close>.
\<close>

lemma service_SearchAll_nil_response:
  assumes "search \<lparr>Search = q, Pagination = \<lparr>Limit = 100, Offset = 0\<rparr>\<rparr> w = (Return (None, None), w')"
  shows "service_SearchAll search entries resource q w = (Panic, w')"
  using assms unfolding service_SearchAll_def
  by (subst SearchAll_loop.simps) (simp add: maxResults_def pageSize_def)

subsection \<open>Paginated search\<close>

text \<open>
  Claim C1. Take a run of \<open>SearchAll\<close> (of the domain or of the host service: both
  are \<open>service_SearchAll\<close> at their \<open>Search\<close> method) in which every page call
  succeeds with a page. Then the first request asks for 100 entries at offset 0,
  the offset of each request is the total of the counts the earlier pages
  returned, so the offsets increase strictly, every request carries the caller's
  search parameters, and the result is the concatenation of the pages' entries in
  the order the pages were requested, with no error. An instance is the backend
  that answers with three pages of 100 entries and then an empty page: the 300
  entries come back in order, fetched at offsets 0, 100 and 200, and the request
  at offset 300 is the one the empty page answers.
\<close>

theorem SearchAll_pages_in_order:
  assumes run: "service_SearchAll (recording search) entries resource q (w, []) = (out, (w', hist))"
    and ok: "\<forall>(req, res) \<in> set hist. is_page res"
  shows "hist \<noteq> [] \<and> Pagination (fst (hd hist)) = \<lparr>Limit = 100, Offset = 0\<rparr> \<and>
         map (Offset \<circ> Pagination \<circ> fst) hist =
           running_offsets 0 (map (length \<circ> page_entries entries \<circ> snd) hist) \<and>
         sorted_wrt (<) (map (Offset \<circ> Pagination \<circ> fst) hist) \<and>
         (\<forall>(req, res) \<in> set hist. Search req = q) \<and>
         out = Return (concat (map (page_entries entries \<circ> snd) hist), None)"
proof -
  note rp = service_SearchAll_replay(1)[OF run]
  have ne: "hist \<noteq> []" by (rule replay_nonempty[OF rp])
  then obtain req res tl where h: "hist = (req, res) # tl" by (cases hist) auto
  from replay_head[OF rp[unfolded h]]
  have first: "Pagination (fst (hd hist)) = \<lparr>Limit = 100, Offset = 0\<rparr>"
    by (simp add: h next_limit_def maxResults_def pageSize_def)
  have inv: "pageSize \<le> maxResults - 0 \<longrightarrow> pageSize = pageSize" by simp
  from replay_requests[OF rp inv] have params: "\<forall>(req, res) \<in> set hist. Search req = q"
    by fastforce
  from replay_concat[OF rp ok]
  have res: "out = Return (concat (map (page_entries entries \<circ> snd) hist), None)" by simp
  from ne first replay_offsets[OF rp] replay_increasing[OF rp] params res
  show ?thesis by blast
qed

theorem SearchAll_pages_in_order_witness:
  "service_SearchAll (recording (scripted (page []))) Domains ''domain'' example_query
       ([page [0..<100], page [100..<200], page [200..<300], page []], [])
     = (Return ([0..<300], None),
        ([], [(page_request 100 0, page [0..<100]), (page_request 100 100, page [100..<200]),
              (page_request 100 200, page [200..<300]), (page_request 100 300, page [])])) \<and>
   map (is_page \<circ> snd)
     [(page_request 100 0, page [0..<100]), (page_request 100 100, page [100..<200]),
      (page_request 100 200, page [200..<300]), (page_request 100 300, page [])] =
     [True, True, True, True] \<and>
   map (Offset \<circ> Pagination \<circ> fst)
     [(page_request 100 0, page [0..<100]), (page_request 100 100, page [100..<200]),
      (page_request 100 200, page [200..<300]), (page_request 100 300, page [])] =
     running_offsets 0 [100, 100, 100, 0] \<and>
   length [0..<300] = 300"
proof -
  let ?hist = "[(page_request 100 0, page [0..<100]), (page_request 100 100, page [100..<200]),
              (page_request 100 200, page [200..<300]), (page_request 100 300, page [])]"
  have run: "service_SearchAll (recording (scripted (page []))) Domains ''domain'' example_query
       ([page [0..<100], page [100..<200], page [200..<300], page []], [])
     = (Return ([0..<300], None), ([], ?hist))"
    by code_simp
  have ok: "\<forall>(req, res) \<in> set ?hist. is_page res"
    by (simp add: page_def)
  from SearchAll_pages_in_order[OF run ok]
  have "map (Offset \<circ> Pagination \<circ> fst) ?hist =
          running_offsets 0 (map (length \<circ> page_entries Domains \<circ> snd) ?hist)" by blast
  then have "map (Offset \<circ> Pagination \<circ> fst) ?hist = running_offsets 0 [100, 100, 100, 0]"
    by (simp add: page_def)
  moreover have "map (is_page \<circ> snd) ?hist = [True, True, True, True]"
    by (simp add: page_def)
  moreover have "length [0..<300] = 300" by simp
  ultimately show ?thesis using run by (intro conjI)
qed

text \<open>
  Claim C2. In every run of \<open>SearchAll\<close>, each request has an offset below 10000
  and a limit of \<open>min 100 (10000 - offset)\<close>. If each page holds at most as many
  entries as its request's limit, a returned list has at most 10000 entries. If
  every call is answered by a page of exactly 100 entries, \<open>SearchAll\<close> returns
  exactly 10000 entries, without error.
\<close>

theorem SearchAll_hard_cap:
  assumes run: "service_SearchAll (recording search) entries resource q (w, []) = (out, (w', hist))"
  shows "(\<forall>(req, res) \<in> set hist.
            0 \<le> Offset (Pagination req) \<and> Offset (Pagination req) < 10000 \<and>
            Limit (Pagination req) = min 100 (10000 - Offset (Pagination req))) \<and>
         ((\<forall>(req, res) \<in> set hist.
             int (length (page_entries entries res)) \<le> Limit (Pagination req)) \<longrightarrow>
          (\<forall>items err. out = Return (items, err) \<longrightarrow> length items \<le> 10000)) \<and>
         ((\<forall>(req, res) \<in> set hist. is_page res \<and> length (page_entries entries res) = 100) \<longrightarrow>
          (\<exists>items. out = Return (items, None) \<and> length items = 10000))"
proof -
  note rp = service_SearchAll_replay(1)[OF run]
  have inv: "pageSize \<le> maxResults - 0 \<longrightarrow> pageSize = pageSize" by simp
  have reqs: "\<forall>(req, res) \<in> set hist.
            0 \<le> Offset (Pagination req) \<and> Offset (Pagination req) < 10000 \<and>
            Limit (Pagination req) = min 100 (10000 - Offset (Pagination req))"
  proof (clarify)
    fix req res assume "(req, res) \<in> set hist"
    with replay_requests[OF rp inv] have "0 \<le> Offset (Pagination req) \<and>
      Offset (Pagination req) < maxResults \<and>
      Limit (Pagination req) = min pageSize (maxResults - Offset (Pagination req))" by blast
    then show "0 \<le> Offset (Pagination req) \<and> Offset (Pagination req) < 10000 \<and>
            Limit (Pagination req) = min 100 (10000 - Offset (Pagination req))"
      by (simp add: maxResults_def pageSize_def)
  qed
  have bound: "length items \<le> 10000"
    if b: "\<forall>(req, res) \<in> set hist. int (length (page_entries entries res)) \<le> Limit (Pagination req)"
      and o: "out = Return (items, err)" for items err
  proof -
    have "int (length items) \<le> maxResults"
      by (rule replay_bounded[OF rp inv _ _ b o]) (simp_all add: maxResults_def)
    then show ?thesis by (simp add: maxResults_def)
  qed
  have full: "\<exists>items. out = Return (items, None) \<and> length items = 10000"
    if f: "\<forall>(req, res) \<in> set hist. is_page res \<and> length (page_entries entries res) = 100"
  proof -
    from f have f': "\<forall>(req, res) \<in> set hist.
        is_page res \<and> int (length (page_entries entries res)) = pageSize"
      by (auto simp: pageSize_def)
    have "(\<exists>items. out = Return (items, None) \<and> int (length items) = maxResults) \<and>
          (\<forall>(req, res) \<in> set hist. Limit (Pagination req) = pageSize)"
      by (rule replay_full[OF rp refl _ _ _ f']) (simp_all add: maxResults_def)
    then obtain items where "out = Return (items, None)" "int (length items) = maxResults"
      by blast
    then have "out = Return (items, None) \<and> length items = 10000"
      by (simp add: maxResults_def)
    then show ?thesis ..
  qed
  show ?thesis
  proof (intro conjI impI allI)
    show "\<forall>(req, res) \<in> set hist.
            0 \<le> Offset (Pagination req) \<and> Offset (Pagination req) < 10000 \<and>
            Limit (Pagination req) = min 100 (10000 - Offset (Pagination req))" by (rule reqs)
  next
    fix items err
    assume "\<forall>(req, res) \<in> set hist.
             int (length (page_entries entries res)) \<le> Limit (Pagination req)"
       and "out = Return (items, err)"
    then show "length items \<le> 10000" by (rule bound)
  next
    assume "\<forall>(req, res) \<in> set hist. is_page res \<and> length (page_entries entries res) = 100"
    then show "\<exists>items. out = Return (items, None) \<and> length items = 10000" by (rule full)
  qed
qed

theorem SearchAll_hard_cap_witness:
  "\<exists>items w' hist.
     service_SearchAll (recording full_backend) Domains ''domain'' example_query ((), [])
       = (Return (items, None), (w', hist)) \<and>
     (\<forall>(req, res) \<in> set hist. is_page res \<and> length (page_entries Domains res) = 100) \<and>
     (\<forall>(req, res) \<in> set hist. int (length (page_entries Domains res)) \<le> Limit (Pagination req)) \<and>
     (\<forall>(req, res) \<in> set hist. Offset (Pagination req) < 10000) \<and>
     length items = 10000"
proof -
  obtain out w' hist where
    run: "service_SearchAll (recording full_backend) Domains ''domain'' example_query ((), [])
            = (out, (w', hist))"
    by (cases "service_SearchAll (recording full_backend) Domains ''domain'' example_query ((), [])")
       auto
  note rp = service_SearchAll_replay[OF run]
  have f: "\<forall>(req, res) \<in> set hist. is_page res \<and> length (page_entries Domains res) = 100"
  proof (clarify)
    fix req res assume "(req, res) \<in> set hist"
    with rp(2) obtain w0 where "res = fst (full_backend req w0)" by blast
    then show "is_page res \<and> length (page_entries Domains res) = 100"
      by (simp add: full_backend_def page_def)
  qed
  then have f': "\<forall>(req, res) \<in> set hist.
        is_page res \<and> int (length (page_entries Domains res)) = pageSize"
    by (auto simp: pageSize_def)
  have "(\<exists>items. out = Return (items, None) \<and> int (length items) = maxResults) \<and>
        (\<forall>(req, res) \<in> set hist. Limit (Pagination req) = pageSize)"
    by (rule replay_full[OF rp(1) refl _ _ _ f']) (simp_all add: maxResults_def)
  then have lim: "\<forall>(req, res) \<in> set hist. Limit (Pagination req) = pageSize" ..
  have b: "\<forall>(req, res) \<in> set hist.
      int (length (page_entries Domains res)) \<le> Limit (Pagination req)"
  proof (clarify)
    fix req res assume m: "(req, res) \<in> set hist"
    with lim have "Limit (Pagination req) = pageSize" by blast
    moreover from m f have "length (page_entries Domains res) = 100" by blast
    ultimately show "int (length (page_entries Domains res)) \<le> Limit (Pagination req)"
      by (simp add: pageSize_def)
  qed
  note cap = SearchAll_hard_cap[OF run]
  from cap f obtain items where items: "out = Return (items, None)" "length items = 10000"
    by blast
  have o: "\<forall>(req, res) \<in> set hist. Offset (Pagination req) < 10000"
  proof (clarify)
    fix req res assume "(req, res) \<in> set hist"
    with cap show "Offset (Pagination req) < 10000" by blast
  qed
  have "service_SearchAll (recording full_backend) Domains ''domain'' example_query ((), [])
       = (Return (items, None), (w', hist)) \<and>
     (\<forall>(req, res) \<in> set hist. is_page res \<and> length (page_entries Domains res) = 100) \<and>
     (\<forall>(req, res) \<in> set hist. int (length (page_entries Domains res)) \<le> Limit (Pagination req)) \<and>
     (\<forall>(req, res) \<in> set hist. Offset (Pagination req) < 10000) \<and>
     length items = 10000"
    using run items f b o by simp
  then show ?thesis by (intro exI)
qed

text \<open>
  Claim C3. If a page call of a run of \<open>SearchAll\<close> is answered by a page with
  fewer entries than the request's limit (none at all included), it is the last
  call of the run, and \<open>SearchAll\<close> returns, without error, the entries of the
  pages before it followed by the entries of this page. An instance is the
  backend that answers 100 entries, then 50, and has a third page ready: 150
  entries come back after two requests and the third page is never asked for.
\<close>

theorem SearchAll_short_page_stops:
  assumes run: "service_SearchAll (recording search) entries resource q (w, []) = (out, (w', hist))"
    and at: "hist = pre @ (req, Return (Some r, None)) # post"
    and short: "int (length (entries r)) < Limit (Pagination req)"
  shows "post = [] \<and>
         out = Return (concat (map (page_entries entries \<circ> snd) pre) @ entries r, None)"
proof -
  note rp = service_SearchAll_replay(1)[OF run]
  from replay_split[OF rp[unfolded at]] obtain limit1 where
    rp': "replay entries resource q
      (0 + int (length (concat (map (page_entries entries \<circ> snd) pre))))
      ([] @ concat (map (page_entries entries \<circ> snd) pre)) limit1
      ((req, Return (Some r, None)) # post) out" by blast
  from replay_head[OF rp'] short
  have lt: "int (length (entries r)) <
      next_limit (0 + int (length (concat (map (page_entries entries \<circ> snd) pre)))) limit1"
    by simp
  from replay_page[OF rp'] lt show ?thesis by (auto split: if_splits)
qed

theorem SearchAll_short_page_stops_witness:
  "service_SearchAll (recording (scripted (page []))) Domains ''domain'' example_query
       ([page [0..<100], page [100..<150], page [150..<250]], [])
     = (Return ([0..<150], None),
        ([page [150..<250]],
         [(page_request 100 0, page [0..<100]), (page_request 100 100, page [100..<150])])) \<and>
   int (length [100..<150]) < Limit (Pagination (page_request 100 100)) \<and>
   Return ([0..<150], None :: error option) =
     Return (concat (map (page_entries Domains \<circ> snd) [(page_request 100 0, page [0..<100])])
             @ [100..<150], None)"
proof -
  define r where "r = \<lparr>DomainsPagination = \<lparr>TotalItems = \<lparr>Value = 300, Relation = ''eq''\<rparr>,
             ResponsePagination = \<lparr>Limit = 100, Offset = 0\<rparr>\<rparr>, Domains = [100..<150]\<rparr>"
  have run: "service_SearchAll (recording (scripted (page []))) Domains ''domain'' example_query
       ([page [0..<100], page [100..<150], page [150..<250]], [])
     = (Return ([0..<150], None),
        ([page [150..<250]],
         [(page_request 100 0, page [0..<100]), (page_request 100 100, page [100..<150])]))"
    by code_simp
  have pg: "page [100..<150] = Return (Some r, None)"
    unfolding page_def r_def ..
  have at: "[(page_request 100 0, page [0..<100]), (page_request 100 100, page [100..<150])]
      = [(page_request 100 0, page [0..<100])] @ (page_request 100 100, Return (Some r, None)) # []"
    unfolding pg by simp
  have d: "Domains r = [100..<150]"
    unfolding r_def by simp
  have short: "int (length [100..<150]) < Limit (Pagination (page_request 100 100))"
    by (simp add: page_request_def)
  then have short': "int (length (Domains r)) < Limit (Pagination (page_request 100 100))"
    unfolding d .
  from SearchAll_short_page_stops[OF run at short']
  have "Return ([0..<150], None :: error option) =
     Return (concat (map (page_entries Domains \<circ> snd) [(page_request 100 0, page [0..<100])])
             @ [100..<150], None)"
    unfolding d by (rule conjunct2)
  with run short show ?thesis by (intro conjI)
qed

text \<open>
  Claim C4. If a page call of a run of \<open>SearchAll\<close> returns an error, it is the
  last call of the run, and \<open>SearchAll\<close> returns the empty (nil) list together with
  the error \<open>"failed to search ... records at offset %d: %w"\<close> made from the
  offset of the failed request and the page call's error; the calls before it
  had all brought pages with entries, which are not returned. An instance is the
  backend that answers 100 entries, then an error, and has a third page ready.
\<close>

theorem SearchAll_page_error:
  assumes run: "service_SearchAll (recording search) entries resource q (w, []) = (out, (w', hist))"
    and at: "hist = pre @ (req, res) # post"
    and failed: "page_error res = Some err"
  shows "post = [] \<and>
         out = Return ([], Some (SearchAllFailed resource (Offset (Pagination req)) err)) \<and>
         Offset (Pagination req) = int (length (concat (map (page_entries entries \<circ> snd) pre))) \<and>
         (\<forall>(rq, rs) \<in> set pre. is_page rs \<and> page_entries entries rs \<noteq> [])"
proof -
  note rp = service_SearchAll_replay(1)[OF run]
  from replay_split[OF rp[unfolded at]] obtain limit1 where
    rp': "replay entries resource q
      (0 + int (length (concat (map (page_entries entries \<circ> snd) pre))))
      ([] @ concat (map (page_entries entries \<circ> snd) pre)) limit1 ((req, res) # post) out"
    and pre: "\<forall>(rq, rs) \<in> set pre. is_page rs \<and> page_entries entries rs \<noteq> []" by blast
  from replay_head[OF rp']
  have off: "Offset (Pagination req) = int (length (concat (map (page_entries entries \<circ> snd) pre)))"
    by simp
  from replay_error[OF rp' failed] off pre show ?thesis by simp
qed

theorem SearchAll_page_error_witness:
  "service_SearchAll (recording (scripted (page []))) Domains ''domain'' example_query
       ([page [0..<100], Return (None, Some (External ''connection reset'')), page [200..<300]], [])
     = (Return ([], Some (SearchAllFailed ''domain'' 100 (External ''connection reset''))),
        ([page [200..<300]],
         [(page_request 100 0, page [0..<100]),
          (page_request 100 100, Return (None, Some (External ''connection reset'')))])) \<and>
   page_error (Return (None :: nat DomainsResponse option, Some (External ''connection reset'')))
     = Some (External ''connection reset'') \<and>
   Offset (Pagination (page_request 100 100)) =
     int (length (concat (map (page_entries Domains \<circ> snd) [(page_request 100 0, page [0..<100])]))) \<and>
   is_page (page [0..<100]) \<and> page_entries Domains (page [0..<100]) \<noteq> []"
proof -
  have run: "service_SearchAll (recording (scripted (page []))) Domains ''domain'' example_query
       ([page [0..<100], Return (None, Some (External ''connection reset'')), page [200..<300]], [])
     = (Return ([], Some (SearchAllFailed ''domain'' 100 (External ''connection reset''))),
        ([page [200..<300]],
         [(page_request 100 0, page [0..<100]),
          (page_request 100 100, Return (None, Some (External ''connection reset'')))]))"
    by code_simp
  have at: "[(page_request 100 0, page [0..<100]),
          (page_request 100 100, Return (None, Some (External ''connection reset'')))]
      = [(page_request 100 0, page [0..<100])] @
        (page_request 100 100, Return (None, Some (External ''connection reset''))) # []"
    by simp
  have failed: "page_error (Return (None :: nat DomainsResponse option, Some (External ''connection reset'')))
     = Some (External ''connection reset'')"
    by simp
  note e = SearchAll_page_error[OF run at failed]
  from e have off: "Offset (Pagination (page_request 100 100)) =
     int (length (concat (map (page_entries Domains \<circ> snd) [(page_request 100 0, page [0..<100])])))"
    by (elim conjE)
  from e have pre: "\<forall>(rq, rs) \<in> set [(page_request 100 0, page [0..<100])].
      is_page rs \<and> page_entries Domains rs \<noteq> []"
    by (elim conjE)
  from pre have p1: "is_page (page [0..<100])"
    and p2: "page_entries Domains (page [0..<100]) \<noteq> []"
    by simp_all
  from run failed off p1 p2 show ?thesis by (intro conjI)
qed

subsection \<open>Client configuration\<close>

text \<open>
  Claim C5. \<open>SetRateLimit\<close> with a requests-per-second value that is not positive,
  or a burst size that is not positive, returns the validation error and leaves
  the client as it was, so neither the rate limit nor the burst size changes.
  With both arguments positive it returns no error, and the limiter then reports
  the new rate limit and the new burst size.
\<close>

theorem SetRateLimit_validation:
  "(le_zero requestsPerSec \<or> burstSize \<le> 0 \<longrightarrow>
      fst (SetRateLimit requestsPerSec burstSize c) =
        Some (if le_zero requestsPerSec then RequestsPerSecNotPositive requestsPerSec
              else BurstSizeNotPositive burstSize) \<and>
      snd (SetRateLimit requestsPerSec burstSize c) = c) \<and>
   (gt_zero requestsPerSec \<and> 0 < burstSize \<longrightarrow>
      fst (SetRateLimit requestsPerSec burstSize c) = None \<and>
      GetRateLimitStatus (snd (SetRateLimit requestsPerSec burstSize c)) = (requestsPerSec, burstSize))"
  by (cases requestsPerSec)
    (auto simp: SetRateLimit_def Let_def GetRateLimitStatus_def SetLimit_def SetBurst_def)

theorem SetRateLimit_validation_witness:
  "\<exists>c. NewClient ''tok'' = (Some c, None) \<and>
     (le_zero (Num 0) \<or> (5::int) \<le> 0) \<and>
     SetRateLimit (Num 0) 5 c = (Some (RequestsPerSecNotPositive (Num 0)), c) \<and>
     (le_zero (Num 5) \<or> (-1::int) \<le> 0) \<and>
     SetRateLimit (Num 5) (-1) c = (Some (BurstSizeNotPositive (-1)), c) \<and>
     (gt_zero (Num 5) \<and> (0::int) < 20) \<and>
     fst (SetRateLimit (Num 5) 20 c) = None \<and>
     GetRateLimitStatus c = (Num 10, 2) \<and>
     GetRateLimitStatus (snd (SetRateLimit (Num 5) 20 c)) = (Num 5, 20)"
proof -
  obtain c where c: "NewClient ''tok'' = (Some c, None)"
    by (simp add: NewClient_def NewClientWithOptions_def Let_def)
  then have st: "GetRateLimitStatus c = (Num 10, 2)"
    by (auto simp: NewClient_def NewClientWithOptions_def ClientOptions_zero_def Let_def
        GetRateLimitStatus_def NewLimiter_def DefaultRateLimit_def DefaultBurst_def)
  from SetRateLimit_validation[of "Num 0" 5 c]
  have a: "SetRateLimit (Num 0) 5 c = (Some (RequestsPerSecNotPositive (Num 0)), c)"
    by (simp add: prod_eq_iff)
  from SetRateLimit_validation[of "Num 5" "-1" c]
  have b: "SetRateLimit (Num 5) (-1) c = (Some (BurstSizeNotPositive (-1)), c)"
    by (simp add: prod_eq_iff)
  from SetRateLimit_validation[of "Num 5" 20 c]
  have d: "fst (SetRateLimit (Num 5) 20 c) = None \<and>
           GetRateLimitStatus (snd (SetRateLimit (Num 5) 20 c)) = (Num 5, 20)"
    by simp
  from c st a b d show ?thesis by simp
qed

text \<open>
  Claim C8. \<open>NewClient\<close> succeeds for every token but the empty one, and a client
  it returns has a request timeout of 60 seconds (60000000000 nanoseconds), a
  rate limit of 10 requests per second and a burst size of 2.
\<close>

theorem NewClient_defaults:
  "(tok \<noteq> '''' \<longrightarrow> (\<exists>c. NewClient tok = (Some c, None))) \<and>
   (\<forall>c e. NewClient tok = (Some c, e) \<longrightarrow>
      client_Timeout (httpClient c) = 60 * Second \<and>
      client_Timeout (httpClient c) = 60000000000 \<and>
      GetRateLimitStatus c = (Num 10, 2))"
  by (simp add: NewClient_def NewClientWithOptions_def ClientOptions_zero_def Let_def
      GetRateLimitStatus_def NewLimiter_def DefaultRateLimit_def DefaultBurst_def Second_def)

theorem NewClient_defaults_witness:
  "''tok'' \<noteq> '''' \<and>
   (\<exists>c. NewClient ''tok'' = (Some c, None) \<and>
        client_Timeout (httpClient c) = 60000000000 \<and>
        GetRateLimitStatus c = (Num 10, 2))"
  using NewClient_defaults [of "''tok''"] by auto

text \<open>
  Claim C9. \<open>NewClientWithOptions\<close> returns an error exactly when the token is
  empty, and then no client. With any other token it returns a client, whatever
  the options: a timeout, rate or burst size that is zero or negative is
  replaced by its default (60 seconds, 10, 2), and a positive one is kept.
\<close>

theorem NewClientWithOptions_errors:
  "(snd (NewClientWithOptions tok opts) \<noteq> None \<longleftrightarrow> tok = '''') \<and>
   (fst (NewClientWithOptions tok opts) = None \<longleftrightarrow> tok = '''') \<and>
   (tok \<noteq> '''' \<longrightarrow>
      (\<exists>c. NewClientWithOptions tok opts = (Some c, None) \<and>
           client_Timeout (httpClient c) =
             (if Timeout opts \<le> 0 then 60000000000 else Timeout opts) \<and>
           limit (rateLimiter c) =
             (if le_zero (RequestsPerSec opts) then Num 10 else RequestsPerSec opts) \<and>
           burst (rateLimiter c) = (if BurstSize opts \<le> 0 then 2 else BurstSize opts)))"
  by (simp add: NewClientWithOptions_def Let_def NewLimiter_def DefaultRateLimit_def
      DefaultBurst_def Second_def)

theorem NewClientWithOptions_errors_witness:
  "''tok'' \<noteq> '''' \<and>
   (\<exists>c. NewClientWithOptions ''tok'' \<lparr>Timeout = -5, RequestsPerSec = NegInf, BurstSize = 7\<rparr>
          = (Some c, None) \<and>
        client_Timeout (httpClient c) = 60000000000 \<and>
        limit (rateLimiter c) = Num 10 \<and> burst (rateLimiter c) = 7) \<and>
   NewClientWithOptions '''' \<lparr>Timeout = 1, RequestsPerSec = Num 1, BurstSize = 1\<rparr>
     = (None, Some TokenRequired)"
proof -
  from NewClientWithOptions_errors
    [of "''tok''" "\<lparr>Timeout = -5, RequestsPerSec = NegInf, BurstSize = 7\<rparr>"]
  have a: "\<exists>c. NewClientWithOptions ''tok'' \<lparr>Timeout = -5, RequestsPerSec = NegInf, BurstSize = 7\<rparr>
          = (Some c, None) \<and>
        client_Timeout (httpClient c) = 60000000000 \<and>
        limit (rateLimiter c) = Num 10 \<and> burst (rateLimiter c) = 7"
    by simp
  have b: "NewClientWithOptions '''' \<lparr>Timeout = 1, RequestsPerSec = Num 1, BurstSize = 1\<rparr>
     = (None, Some TokenRequired)"
    by (simp add: NewClientWithOptions_def Let_def)
  from a b show ?thesis by simp
qed

subsection \<open>Authenticated transport\<close>

lemma three_headers:
  "Header_Set acceptHeaderName defaultContentType
     (Header_Set contentTypeHeaderName defaultContentType
        (Header_Set authorizationHeaderName (authorizationType @ tok) Map.empty))
   = [''Authorization'' \<mapsto> [''Bearer '' @ tok],
      ''Content-Type'' \<mapsto> [''application/json''],
      ''Accept'' \<mapsto> [''application/json'']]"
  by (simp add: Header_Set_def authorizationHeaderName_def authorizationType_def
      contentTypeHeaderName_def acceptHeaderName_def defaultContentType_def)

lemma MakeAuthenticatedRequest_send:
  assumes v: "invalid ctx verb url = None"
    and b: "reqBody = (case body of None \<Rightarrow> Inr None
                 | Some b \<Rightarrow> (case Marshal b of Inl err \<Rightarrow> Inl (MarshalFailed err)
                              | Inr jsonData \<Rightarrow> Inr (Some jsonData)))"
    and rb: "reqBody = Inr rb"
    and d: "Do \<lparr>Ctx = ctx, Method = verb, URL = url,
                Header = [''Authorization'' \<mapsto> [''Bearer '' @ tok],
                          ''Content-Type'' \<mapsto> [''application/json''],
                          ''Accept'' \<mapsto> [''application/json'']],
                ReqBody = rb\<rparr> w = (r, w')"
  shows "MakeAuthenticatedRequest Marshal invalid ctx (Some Do) verb url tok body w
           = (classify r, w')"
proof -
  have body: "(case body of None \<Rightarrow> Inr None
                 | Some b \<Rightarrow> (case Marshal b of Inl err \<Rightarrow> Inl (MarshalFailed err)
                              | Inr jsonData \<Rightarrow> Inr (Some jsonData))) = Inr rb"
    using b rb by simp
  have cl: "(case r of
        Inl err \<Rightarrow> ((None, Some (RequestFailed err)), w')
      | Inr resp \<Rightarrow>
          if StatusCode resp \<ge> 400 then
            (case ReadAll (Body resp) of
               (bodyBytes, Some err) \<Rightarrow> ((None, Some (APIErrorUnreadBody (StatusCode resp))), w')
             | (bodyBytes, None) \<Rightarrow> ((None, Some (APIError (StatusCode resp) bodyBytes)), w'))
          else ((Some resp, None), w')) = (classify r, w')"
    by (cases r) (simp_all add: classify_def ReadAll_def split: option.splits)
  show ?thesis
    unfolding MakeAuthenticatedRequest_def NewRequestWithContext_def
    using d by (simp add: body v Let_def three_headers cl)
qed


lemma MakeAuthenticatedRequest_not_sent:
  assumes "(\<exists>b err. body = Some b \<and> Marshal b = Inl err) \<or> invalid ctx verb url \<noteq> None"
  shows "\<exists>err. MakeAuthenticatedRequest Marshal invalid ctx (Some Do) verb url tok body w
           = ((None, Some err), w)"
  using assms unfolding MakeAuthenticatedRequest_def NewRequestWithContext_def
  by (cases body; cases "invalid ctx verb url") (auto split: sum.splits)

lemma MakeAuthenticatedRequest_recorded:
  assumes run: "MakeAuthenticatedRequest Marshal invalid ctx (Some (recording Do)) verb url tok body
             (w, []) = (res, (w', hist))"
  shows "(hist = [] \<and> w' = w \<and> fst res = None \<and> snd res \<noteq> None \<and>
          ((\<exists>b err. body = Some b \<and> Marshal b = Inl err) \<or> invalid ctx verb url \<noteq> None)) \<or>
         (\<not> ((\<exists>b err. body = Some b \<and> Marshal b = Inl err) \<or> invalid ctx verb url \<noteq> None) \<and>
          (\<exists>req r. hist = [(req, r)] \<and> Do req w = (r, w') \<and>
            Method req = verb \<and> URL req = url \<and>
            Header req = [''Authorization'' \<mapsto> [''Bearer '' @ tok],
                          ''Content-Type'' \<mapsto> [''application/json''],
                          ''Accept'' \<mapsto> [''application/json'']] \<and>
            res = classify r))"
proof (cases "(\<exists>b err. body = Some b \<and> Marshal b = Inl err) \<or> invalid ctx verb url \<noteq> None")
  case True
  from MakeAuthenticatedRequest_not_sent[where body=body and Marshal=Marshal and invalid=invalid
      and ctx=ctx and verb=verb and url=url and Do="recording Do" and tok=tok
      and w="(w, [])", OF True] run
  have "hist = [] \<and> w' = w \<and> fst res = None \<and> snd res \<noteq> None" by auto
  with True show ?thesis by blast
next
  case False
  then have v: "invalid ctx verb url = None" by simp
  define reqBody where "reqBody = (case body of None \<Rightarrow> Inr None
                 | Some b \<Rightarrow> (case Marshal b of Inl err \<Rightarrow> Inl (MarshalFailed err)
                              | Inr jsonData \<Rightarrow> Inr (Some jsonData)))"
  have "\<exists>rb. reqBody = Inr rb"
  proof (cases body)
    case None
    then show ?thesis by (simp add: reqBody_def)
  next
    case (Some a)
    with False obtain j where "Marshal a = Inr j" by (cases "Marshal a") auto
    with Some show ?thesis by (simp add: reqBody_def)
  qed
  then obtain rb where rb: "reqBody = Inr rb" ..
  let ?req = "\<lparr>Ctx = ctx, Method = verb, URL = url,
                Header = [''Authorization'' \<mapsto> [''Bearer '' @ tok],
                          ''Content-Type'' \<mapsto> [''application/json''],
                          ''Accept'' \<mapsto> [''application/json'']],
                ReqBody = rb\<rparr>"
  obtain r w1 where d: "Do ?req w = (r, w1)" by (cases "Do ?req w")
  then have rd: "recording Do ?req (w, []) = (r, (w1, [(?req, r)]))"
    by (simp add: recording_def)
  from MakeAuthenticatedRequest_send[where invalid=invalid and ctx=ctx and verb=verb
      and url=url and body=body and Marshal=Marshal and Do="recording Do" and tok=tok
      and w="(w, [])" and reqBody=reqBody and rb=rb and r=r and w'="(w1, [(?req, r)])",
      OF v reqBody_def rb rd] run
  have res: "res = classify r" and w: "w' = w1" and h: "hist = [(?req, r)]"
    by simp_all
  have m: "Method ?req = verb" and u: "URL ?req = url"
    and hd: "Header ?req = [''Authorization'' \<mapsto> [''Bearer '' @ tok],
                          ''Content-Type'' \<mapsto> [''application/json''],
                          ''Accept'' \<mapsto> [''application/json'']]"
    by simp_all
  from d w have d': "Do ?req w = (r, w')" by simp
  have "\<exists>req r. hist = [(req, r)] \<and> Do req w = (r, w') \<and>
            Method req = verb \<and> URL req = url \<and>
            Header req = [''Authorization'' \<mapsto> [''Bearer '' @ tok],
                          ''Content-Type'' \<mapsto> [''application/json''],
                          ''Accept'' \<mapsto> [''application/json'']] \<and>
            res = classify r"
    by (rule exI[of _ ?req], rule exI[of _ r]) (intro conjI h d' m u hd res)
  with False show ?thesis by (intro disjI2 conjI)
qed

lemma respond_recorded:
  assumes run: "MakeAuthenticatedRequest marshal_ok accept_all () (Some (recording (respond resp)))
             method url tok None (w, []) = (res, (w', hist))"
  shows "\<exists>req. hist = [(req, Inr resp)]"
proof -
  from MakeAuthenticatedRequest_recorded[OF run]
  show ?thesis
  proof (rule disjE)
    assume "hist = [] \<and> w' = w \<and> fst res = None \<and> snd res \<noteq> None \<and>
      ((\<exists>b err. None = Some b \<and> marshal_ok b = Inl err) \<or> accept_all () method url \<noteq> None)"
    then show ?thesis by (simp add: accept_all_def)
  next
    assume "\<not> ((\<exists>b err. None = Some b \<and> marshal_ok b = Inl err) \<or>
                accept_all () method url \<noteq> None) \<and>
          (\<exists>req r. hist = [(req, r)] \<and> respond resp req w = (r, w') \<and>
            Method req = method \<and> URL req = url \<and>
            Header req = [''Authorization'' \<mapsto> [''Bearer '' @ tok],
                          ''Content-Type'' \<mapsto> [''application/json''],
                          ''Accept'' \<mapsto> [''application/json'']] \<and>
            res = classify r)"
    then obtain req r where "hist = [(req, r)]" "respond resp req w = (r, w')"
      by (elim exE conjE)
    then have "hist = [(req, Inr resp)]" by (auto simp: respond_def)
    then show ?thesis ..
  qed
qed

text \<open>
  Claim C6, as far as the code goes. Take a call of \<open>MakeAuthenticatedRequest\<close>
  that the transport answers with a response. If the status is 400 or more and
  the body is read to its end, the call returns no response and the error
  \<open>"API error %d: %s"\<close> made from the status code and the whole body text,
  unchanged. If the status is 400 or more and reading the body fails, it returns
  no response and the error \<open>"API error %d: failed to read response body"\<close>,
  which has the status code and nothing of the body. If the status is below 400
  it returns the very response the transport gave, with nothing read from its
  body and the body not closed, and no error.
\<close>

theorem MakeAuthenticatedRequest_classifies:
  assumes run: "MakeAuthenticatedRequest Marshal invalid ctx (Some (recording Do)) method url tok body
             (w, []) = (res, (w', hist))"
    and got: "(req, Inr resp) \<in> set hist"
  shows "(400 \<le> StatusCode resp \<and> read_error (Body resp) = None \<longrightarrow>
            res = (None, Some (APIError (StatusCode resp) (content (Body resp))))) \<and>
         (400 \<le> StatusCode resp \<and> read_error (Body resp) \<noteq> None \<longrightarrow>
            res = (None, Some (APIErrorUnreadBody (StatusCode resp)))) \<and>
         (StatusCode resp < 400 \<longrightarrow> res = (Some resp, None))"
proof -
  from MakeAuthenticatedRequest_recorded[OF run] got
  have "res = classify (Inr resp)" by auto
  then show ?thesis by (auto simp: classify_def)
qed

theorem MakeAuthenticatedRequest_classifies_witness:
  "fst (MakeAuthenticatedRequest marshal_ok accept_all ()
          (Some (recording (respond (response_of 404 ''not found'' None))))
          ''GET'' ''https://api.recona.io/domains/example.com'' ''tok'' None ((), []))
     = (None, Some (APIError 404 ''not found'')) \<and>
   fst (MakeAuthenticatedRequest marshal_ok accept_all ()
          (Some (recording (respond (response_of 500 ''upstr'' (Some (External ''unexpected EOF''))))))
          ''GET'' ''https://api.recona.io/domains/example.com'' ''tok'' None ((), []))
     = (None, Some (APIErrorUnreadBody 500)) \<and>
   fst (MakeAuthenticatedRequest marshal_ok accept_all ()
          (Some (recording (respond (response_of 200 ''null'' None))))
          ''GET'' ''https://api.recona.io/domains/example.com'' ''tok'' None ((), []))
     = (Some (response_of 200 ''null'' None), None) \<and>
   \<not> closed (Body (response_of 200 ''null'' None))"
proof -
  have a: "fst (MakeAuthenticatedRequest marshal_ok accept_all ()
          (Some (recording (respond resp)))
          ''GET'' ''https://api.recona.io/domains/example.com'' ''tok'' None ((), [])) = expected"
    if *: "\<And>res. ((400 \<le> StatusCode resp \<and> read_error (Body resp) = None \<longrightarrow>
            res = (None, Some (APIError (StatusCode resp) (content (Body resp))))) \<and>
         (400 \<le> StatusCode resp \<and> read_error (Body resp) \<noteq> None \<longrightarrow>
            res = (None, Some (APIErrorUnreadBody (StatusCode resp)))) \<and>
         (StatusCode resp < 400 \<longrightarrow> res = (Some resp, None))) \<Longrightarrow> res = expected"
    for resp expected
  proof -
    obtain res w' hist where run: "MakeAuthenticatedRequest marshal_ok accept_all ()
          (Some (recording (respond resp)))
          ''GET'' ''https://api.recona.io/domains/example.com'' ''tok'' None ((), [])
          = (res, (w', hist))"
      by (rule prod_cases3)
    from respond_recorded[OF run] obtain req where "hist = [(req, Inr resp)]" ..
    then have "(req, Inr resp) \<in> set hist" by simp
    from MakeAuthenticatedRequest_classifies[OF run this] have "res = expected" by (rule *)
    with run show ?thesis by simp
  qed
  have "fst (MakeAuthenticatedRequest marshal_ok accept_all ()
          (Some (recording (respond (response_of 404 ''not found'' None))))
          ''GET'' ''https://api.recona.io/domains/example.com'' ''tok'' None ((), []))
     = (None, Some (APIError 404 ''not found''))"
    by (rule a) (simp add: response_of_def)
  moreover have "fst (MakeAuthenticatedRequest marshal_ok accept_all ()
          (Some (recording (respond (response_of 500 ''upstr'' (Some (External ''unexpected EOF''))))))
          ''GET'' ''https://api.recona.io/domains/example.com'' ''tok'' None ((), []))
     = (None, Some (APIErrorUnreadBody 500))"
    by (rule a) (simp add: response_of_def)
  moreover have "fst (MakeAuthenticatedRequest marshal_ok accept_all ()
          (Some (recording (respond (response_of 200 ''null'' None))))
          ''GET'' ''https://api.recona.io/domains/example.com'' ''tok'' None ((), []))
     = (Some (response_of 200 ''null'' None), None)"
    by (rule a) (simp add: response_of_def)
  moreover have "\<not> closed (Body (response_of 200 ''null'' None))"
    by (simp add: response_of_def)
  ultimately show ?thesis by (intro conjI)
qed

text \<open>
  Where claim C6 fails: a response with status 500 whose body cannot be read to
  its end. The error returned is the one for the failed read; it is not the error
  that carries the body text.
\<close>

theorem MakeAuthenticatedRequest_unread_body_counterexample:
  "fst (MakeAuthenticatedRequest marshal_ok accept_all ()
          (Some (respond (response_of 500 ''upstream fai'' (Some (External ''unexpected EOF'')))))
          ''GET'' ''https://api.recona.io/domains/example.com'' ''tok'' None ())
     = (None, Some (APIErrorUnreadBody 500)) \<and>
   APIErrorUnreadBody 500 \<noteq> APIError 500 ''upstream fai''"
  by (simp add: MakeAuthenticatedRequest_def NewRequestWithContext_def accept_all_def respond_def
      response_of_def ReadAll_def Let_def)

lemma TrimString_Bearer_empty: "TrimString ''Bearer '' = ''Bearer''"
  by (simp add: TrimString_def isASCIISpace_def)

lemma TrimString_Bearer_token:
  assumes "tok \<noteq> []" and "\<forall>c \<in> set tok. \<not> isASCIISpace c"
  shows "TrimString (''Bearer '' @ tok) = ''Bearer '' @ tok"
proof -
  have front: "dropWhile isASCIISpace (''Bearer '' @ tok) = ''Bearer '' @ tok"
    by (simp add: isASCIISpace_def)
  from assms have "\<not> isASCIISpace (last tok)" by simp
  with assms(1) have "\<not> isASCIISpace (hd (rev tok))" by (simp add: hd_rev)
  moreover from assms(1) have "rev tok \<noteq> []" by simp
  ultimately have "dropWhile isASCIISpace (rev tok @ rev ''Bearer '') = rev tok @ rev ''Bearer ''"
    by (cases "rev tok") simp_all
  then have "dropWhile isASCIISpace (rev (''Bearer '' @ tok)) = rev (''Bearer '' @ tok)"
    by (simp only: rev_append)
  with front show ?thesis by (simp only: TrimString_def rev_rev_ident)
qed

lemma no_newline_Bearer:
  assumes "\<forall>c \<in> set tok. \<not> isASCIISpace c"
  shows "CHR 0x0A \<notin> set (''Bearer '' @ tok) \<and> CHR 0x0D \<notin> set (''Bearer '' @ tok)"
  using assms by (auto simp: isASCIISpace_def)

text \<open>
  Claim C7. A call of \<open>MakeAuthenticatedRequest\<close> hands the transport no request
  exactly when marshalling the body or creating the request fails; otherwise it
  hands it one request, and the header of that request has exactly the three
  keys \<open>Authorization\<close>, \<open>Content-Type\<close> and \<open>Accept\<close>, with the values
  \<open>"Bearer " + token\<close>, \<open>application/json\<close> and \<open>application/json\<close>.
  \<open>written\<close> is what net/http puts on the wire for a header value: library code,
  taken with its rule that a value without line breaks is written trimmed of
  white space at both ends. Then, for a token without white space, the value
  written is \<open>"Bearer " + token\<close> as it was set, and for the empty token the value
  \<open>"Bearer "\<close> that the code sets is written as \<open>"Bearer"\<close>, its trailing space
  trimmed, which is what the repository's test of the empty token reads at the
  server.
\<close>

theorem MakeAuthenticatedRequest_headers:
  assumes run: "MakeAuthenticatedRequest Marshal invalid ctx (Some (recording Do)) method url tok body
             (w, []) = (res, (w', hist))"
    and wire: "\<forall>v. CHR 0x0A \<notin> set v \<and> CHR 0x0D \<notin> set v \<longrightarrow> written v = TrimString v"
  shows "(hist = [] \<longleftrightarrow>
            (\<exists>b err. body = Some b \<and> Marshal b = Inl err) \<or> invalid ctx method url \<noteq> None) \<and>
         (\<forall>(req, r) \<in> set hist.
            hist = [(req, r)] \<and>
            dom (Header req) = {''Authorization'', ''Content-Type'', ''Accept''} \<and>
            Header req ''Authorization'' = Some [''Bearer '' @ tok] \<and>
            Header req ''Content-Type'' = Some [''application/json''] \<and>
            Header req ''Accept'' = Some [''application/json''] \<and>
            (tok \<noteq> [] \<and> (\<forall>c \<in> set tok. \<not> isASCIISpace c) \<longrightarrow>
               map_option (map written) (Header req ''Authorization'') = Some [''Bearer '' @ tok]) \<and>
            (tok = [] \<longrightarrow>
               map_option (map written) (Header req ''Authorization'') = Some [''Bearer'']))"
proof -
  let ?failed = "(\<exists>b err. body = Some b \<and> Marshal b = Inl err) \<or> invalid ctx method url \<noteq> None"
  from MakeAuthenticatedRequest_recorded[OF run]
  show ?thesis
  proof (rule disjE)
    assume "hist = [] \<and> w' = w \<and> fst res = None \<and> snd res \<noteq> None \<and> ?failed"
    then show ?thesis by simp
  next
    assume "\<not> ?failed \<and>
          (\<exists>req r. hist = [(req, r)] \<and> Do req w = (r, w') \<and>
            Method req = method \<and> URL req = url \<and>
            Header req = [''Authorization'' \<mapsto> [''Bearer '' @ tok],
                          ''Content-Type'' \<mapsto> [''application/json''],
                          ''Accept'' \<mapsto> [''application/json'']] \<and>
            res = classify r)"
    then obtain req r where nf: "\<not> ?failed" and h: "hist = [(req, r)]"
      and hd: "Header req = [''Authorization'' \<mapsto> [''Bearer '' @ tok],
                          ''Content-Type'' \<mapsto> [''application/json''],
                          ''Accept'' \<mapsto> [''application/json'']]"
      by (elim exE conjE)
    have dm: "dom (Header req) = {''Authorization'', ''Content-Type'', ''Accept''}"
      unfolding hd by auto
    have a: "Header req ''Authorization'' = Some [''Bearer '' @ tok]"
      and c: "Header req ''Content-Type'' = Some [''application/json'']"
      and ac: "Header req ''Accept'' = Some [''application/json'']"
      unfolding hd by simp_all
    have plain: "map_option (map written) (Header req ''Authorization'') = Some [''Bearer '' @ tok]"
      if t: "tok \<noteq> [] \<and> (\<forall>c \<in> set tok. \<not> isASCIISpace c)"
    proof -
      from t no_newline_Bearer[of tok] wire
      have "written (''Bearer '' @ tok) = TrimString (''Bearer '' @ tok)" by blast
      also have "\<dots> = ''Bearer '' @ tok"
        by (rule TrimString_Bearer_token) (use t in simp_all)
      finally show ?thesis by (simp only: a option.map list.map)
    qed
    have empty: "map_option (map written) (Header req ''Authorization'') = Some [''Bearer'']"
      if t: "tok = []"
    proof -
      have "CHR 0x0A \<notin> set ''Bearer '' \<and> CHR 0x0D \<notin> set ''Bearer ''" by simp
      with wire have "written ''Bearer '' = TrimString ''Bearer ''" by blast
      then have "written ''Bearer '' = ''Bearer''" by (simp only: TrimString_Bearer_empty)
      with a t show ?thesis by simp
    qed
    from nf h dm a c ac plain empty show ?thesis by simp
  qed
qed

theorem MakeAuthenticatedRequest_headers_witness:
  "(\<exists>res w' hist.
     MakeAuthenticatedRequest marshal_ok accept_all ()
          (Some (recording (respond (response_of 200 ''null'' None))))
          ''GET'' ''https://api.recona.io/domains/example.com'' [] None ((), [])
       = (res, (w', hist)) \<and>
     (\<forall>v. CHR 0x0A \<notin> set v \<and> CHR 0x0D \<notin> set v \<longrightarrow> TrimString v = TrimString v) \<and>
     hist \<noteq> [] \<and>
     (\<forall>(req, r) \<in> set hist.
        dom (Header req) = {''Authorization'', ''Content-Type'', ''Accept''} \<and>
        Header req ''Authorization'' = Some [''Bearer ''] \<and>
        map_option (map TrimString) (Header req ''Authorization'') = Some [''Bearer''])) \<and>
   (\<exists>res w' hist.
     MakeAuthenticatedRequest marshal_ok accept_all ()
          (Some (recording (respond (response_of 200 ''null'' None))))
          ''GET'' ''https://api.recona.io/domains/example.com'' ''secret'' None ((), [])
       = (res, (w', hist)) \<and>
     hist \<noteq> [] \<and>
     (\<forall>(req, r) \<in> set hist.
        dom (Header req) = {''Authorization'', ''Content-Type'', ''Accept''} \<and>
        Header req ''Authorization'' = Some [''Bearer secret''] \<and>
        map_option (map TrimString) (Header req ''Authorization'') = Some [''Bearer secret'']))"
proof (rule conjI)
  obtain res w' hist where run: "MakeAuthenticatedRequest marshal_ok accept_all ()
          (Some (recording (respond (response_of 200 ''null'' None))))
          ''GET'' ''https://api.recona.io/domains/example.com'' [] None ((), [])
          = (res, (w', hist))"
    by (rule prod_cases3)
  have wire: "\<forall>v. CHR 0x0A \<notin> set v \<and> CHR 0x0D \<notin> set v \<longrightarrow> TrimString v = TrimString v"
    by simp
  note h = MakeAuthenticatedRequest_headers[OF run wire]
  from h[THEN conjunct1] have ne: "hist \<noteq> []" by (simp add: accept_all_def)
  have hs: "\<forall>(req, r) \<in> set hist.
        dom (Header req) = {''Authorization'', ''Content-Type'', ''Accept''} \<and>
        Header req ''Authorization'' = Some [''Bearer ''] \<and>
        map_option (map TrimString) (Header req ''Authorization'') = Some [''Bearer'']"
  proof (clarify)
    fix req r assume "(req, r) \<in> set hist"
    note x = bspec[OF h[THEN conjunct2] this, unfolded prod.case]
    note d = x[THEN conjunct2, THEN conjunct1]
    from x[THEN conjunct2, THEN conjunct2, THEN conjunct1]
    have a: "Header req ''Authorization'' = Some [''Bearer '']" by (simp only: append_Nil2)
    from x[THEN conjunct2, THEN conjunct2, THEN conjunct2, THEN conjunct2, THEN conjunct2,
        THEN conjunct2]
    have t: "map_option (map TrimString) (Header req ''Authorization'') = Some [''Bearer'']"
      by (simp only: simp_thms)
    from d a t show "dom (Header req) = {''Authorization'', ''Content-Type'', ''Accept''} \<and>
        Header req ''Authorization'' = Some [''Bearer ''] \<and>
        map_option (map TrimString) (Header req ''Authorization'') = Some [''Bearer'']"
      by (intro conjI)
  qed
  show "\<exists>res w' hist.
     MakeAuthenticatedRequest marshal_ok accept_all ()
          (Some (recording (respond (response_of 200 ''null'' None))))
          ''GET'' ''https://api.recona.io/domains/example.com'' [] None ((), [])
       = (res, (w', hist)) \<and>
     (\<forall>v. CHR 0x0A \<notin> set v \<and> CHR 0x0D \<notin> set v \<longrightarrow> TrimString v = TrimString v) \<and>
     hist \<noteq> [] \<and>
     (\<forall>(req, r) \<in> set hist.
        dom (Header req) = {''Authorization'', ''Content-Type'', ''Accept''} \<and>
        Header req ''Authorization'' = Some [''Bearer ''] \<and>
        map_option (map TrimString) (Header req ''Authorization'') = Some [''Bearer''])"
    by (rule exI[of _ res], rule exI[of _ w'], rule exI[of _ hist]) (intro conjI run wire ne hs)
next
  obtain res w' hist where run: "MakeAuthenticatedRequest marshal_ok accept_all ()
          (Some (recording (respond (response_of 200 ''null'' None))))
          ''GET'' ''https://api.recona.io/domains/example.com'' ''secret'' None ((), [])
          = (res, (w', hist))"
    by (rule prod_cases3)
  have wire: "\<forall>v. CHR 0x0A \<notin> set v \<and> CHR 0x0D \<notin> set v \<longrightarrow> TrimString v = TrimString v"
    by simp
  note h = MakeAuthenticatedRequest_headers[OF run wire]
  from h[THEN conjunct1] have ne: "hist \<noteq> []" by (simp add: accept_all_def)
  have plain: "''secret'' \<noteq> [] \<and> (\<forall>c \<in> set ''secret''. \<not> isASCIISpace c)"
    by (simp add: isASCIISpace_def)
  have hs: "\<forall>(req, r) \<in> set hist.
        dom (Header req) = {''Authorization'', ''Content-Type'', ''Accept''} \<and>
        Header req ''Authorization'' = Some [''Bearer secret''] \<and>
        map_option (map TrimString) (Header req ''Authorization'') = Some [''Bearer secret'']"
  proof (clarify)
    fix req r assume "(req, r) \<in> set hist"
    note x = bspec[OF h[THEN conjunct2] this, unfolded prod.case]
    note d = x[THEN conjunct2, THEN conjunct1]
    from x[THEN conjunct2, THEN conjunct2, THEN conjunct1]
    have a: "Header req ''Authorization'' = Some [''Bearer secret'']" by (simp only: append.simps)
    from x[THEN conjunct2, THEN conjunct2, THEN conjunct2, THEN conjunct2, THEN conjunct2,
        THEN conjunct1, THEN mp, OF plain]
    have t: "map_option (map TrimString) (Header req ''Authorization'') = Some [''Bearer secret'']"
      by (simp only: append.simps)
    from d a t show "dom (Header req) = {''Authorization'', ''Content-Type'', ''Accept''} \<and>
        Header req ''Authorization'' = Some [''Bearer secret''] \<and>
        map_option (map TrimString) (Header req ''Authorization'') = Some [''Bearer secret'']"
      by (intro conjI)
  qed
  show "\<exists>res w' hist.
     MakeAuthenticatedRequest marshal_ok accept_all ()
          (Some (recording (respond (response_of 200 ''null'' None))))
          ''GET'' ''https://api.recona.io/domains/example.com'' ''secret'' None ((), [])
       = (res, (w', hist)) \<and>
     hist \<noteq> [] \<and>
     (\<forall>(req, r) \<in> set hist.
        dom (Header req) = {''Authorization'', ''Content-Type'', ''Accept''} \<and>
        Header req ''Authorization'' = Some [''Bearer secret''] \<and>
        map_option (map TrimString) (Header req ''Authorization'') = Some [''Bearer secret''])"
    by (rule exI[of _ res], rule exI[of _ w'], rule exI[of _ hist]) (intro conjI run ne hs)
qed

subsection \<open>Resource details\<close>

text \<open>
  Claim C10. Let the decoder leave a nil target nil and report no error on a
  stream that holds the JSON literal \<open>null\<close>, as \<open>encoding/json\<close> does for a
  pointer (the repository's test of \<open>DecodeJSON\<close> checks the same for a map).
  If \<open>MakeRequest\<close> succeeds with a response whose body is \<open>null\<close>, then
  \<open>DomainService.GetDetails\<close> and \<open>HostService.GetDetails\<close> return the nil
  pointer and the nil error. The instance runs both on the client's own
  \<open>MakeRequest\<close>, against a server that answers 200 with the body \<open>null\<close>.
\<close>

theorem GetDetails_null_body:
  assumes null: "content (Body resp) = ''null''" "read_error (Body resp) = None"
    and decD: "\<forall>r. content r = ''null'' \<and> read_error r = None \<longrightarrow> DecodeD r None = (None, None)"
    and decH: "\<forall>r. content r = ''null'' \<and> read_error r = None \<longrightarrow> DecodeH r None = (None, None)"
  shows "(MakeRequest ctx ''GET'' (''/domains/'' @ ident) None w = ((Some resp, None), w') \<longrightarrow>
            DomainService_GetDetails MakeRequest DecodeD ctx ident w = (Return (None, None), w')) \<and>
         (MakeRequest ctx ''GET'' (''/hosts/'' @ ident) None w = ((Some resp, None), w') \<longrightarrow>
            HostService_GetDetails MakeRequest DecodeH ctx ident w = (Return (None, None), w'))"
proof -
  from null decD have d: "DecodeD (Body resp) None = (None, None)" by blast
  from null decH have h: "DecodeH (Body resp) None = (None, None)" by blast
  show ?thesis
    by (simp add: DomainService_GetDetails_def HostService_GetDetails_def service_GetDetails_def
        DecodeJSON_def d h)
qed

theorem GetDetails_null_body_witness:
  "\<exists>c. NewClient ''tok'' = (Some c, None) \<and>
     content (Body (response_of 200 ''null'' None)) = ''null'' \<and>
     read_error (Body (response_of 200 ''null'' None)) = None \<and>
     (\<forall>r. content r = ''null'' \<and> read_error r = None \<longrightarrow> decode_null r None = (None, None)) \<and>
     DomainService_GetDetails
       (Client_MakeRequest admit marshal_ok accept_all (\<lambda>hc. respond (response_of 200 ''null'' None)) c)
       decode_null () ''example.com'' () = (Return (None, None), ()) \<and>
     HostService_GetDetails
       (Client_MakeRequest admit marshal_ok accept_all (\<lambda>hc. respond (response_of 200 ''null'' None)) c)
       decode_null () ''1.1.1.1'' () = (Return (None, None), ())"
proof -
  obtain c where c: "NewClient ''tok'' = (Some c, None)"
    by (simp add: NewClient_def NewClientWithOptions_def Let_def)
  let ?mk = "Client_MakeRequest admit marshal_ok accept_all
               (\<lambda>hc. respond (response_of 200 ''null'' None)) c"
  have mk: "?mk () ''GET'' endpoint None () = ((Some (response_of 200 ''null'' None), None), ())"
    for endpoint
    by (simp add: Client_MakeRequest_def admit_def MakeAuthenticatedRequest_def
        NewRequestWithContext_def accept_all_def respond_def response_of_def Let_def)
  have n: "content (Body (response_of 200 ''null'' None)) = ''null''"
    "read_error (Body (response_of 200 ''null'' None)) = None"
    by (simp_all add: response_of_def)
  have dec: "\<forall>r. content r = ''null'' \<and> read_error r = None \<longrightarrow> decode_null r None = (None, None)"
    by (simp add: decode_null_def)
  from GetDetails_null_body[where resp="response_of 200 ''null'' None" and DecodeD=decode_null
      and DecodeH=decode_null and MakeRequest="?mk" and ctx="()" and ident="''example.com''"
      and w="()" and w'="()", OF n dec dec] mk
  have dom: "DomainService_GetDetails ?mk decode_null () ''example.com'' () = (Return (None, None), ())"
    by simp
  from GetDetails_null_body[where resp="response_of 200 ''null'' None" and DecodeD=decode_null
      and DecodeH=decode_null and MakeRequest="?mk" and ctx="()" and ident="''1.1.1.1''"
      and w="()" and w'="()", OF n dec dec] mk
  have host: "HostService_GetDetails ?mk decode_null () ''1.1.1.1'' () = (Return (None, None), ())"
    by simp
  show ?thesis
    by (rule exI[of _ c]) (intro conjI c n dec dom host)
qed

end
